theory Spec2Isabelle
  imports Complex_Main
begin

section \<open>Error taxonomy (packages/core/src/errors.ts)\<close>

text \<open>
  The JavaScript classes that can be thrown.  \<open>FaktoorApiError\<close> is the helper class
  declared at the bottom of the Gmail API client; it extends \<open>Error\<close> directly and is
  unrelated to \<open>FaktoorError\<close>.  The last four are the platform's own error classes.
\<close>

datatype err_class =
    Error
  | FaktoorError
  | AuthenticationError
  | RateLimitError
  | NotFoundError
  | NetworkError
  | ValidationError
  | ProviderError
  | FaktoorApiError
  | DOMException
  | URIError
  | TypeError
  | SyntaxError

text \<open>
  JavaScript numbers are IEEE 754 doubles.  An integer that needs more than 53 bits is
  rounded to the nearest double, ties to the even significand: \<open>double_exp n\<close> is the
  number of low bits that a double cannot hold, \<open>round_double n\<close> the magnitude of the
  nearest double (as an integer; it is infinite from \<open>2^1024\<close> on).
\<close>

fun double_exp :: "nat \<Rightarrow> nat" where
  "double_exp n = (if n < 9007199254740992 then 0 else Suc (double_exp (n div 2)))"

declare double_exp.simps [simp del]

definition round_double :: "nat \<Rightarrow> nat" where
  "round_double n =
     (let e = double_exp n; q = n div 2 ^ e; r = n mod 2 ^ e
      in if 2 * r < 2 ^ e \<or> (2 * r = 2 ^ e \<and> even q) then q * 2 ^ e else (q + 1) * 2 ^ e)"

text \<open>
  A JavaScript number as far as the error fields need it: \<open>Number.parseInt\<close> may
  produce \<open>NaN\<close> or an infinity, and the product of either with 1000 is the same
  again.  \<open>to_double k\<close> is the number that the exact integer \<open>k\<close> rounds to.
\<close>

datatype jsnum = NaN | Infinity | NegInfinity | Num int

definition to_double :: "int \<Rightarrow> jsnum" where
  "to_double k =
     (let m = round_double (nat \<bar>k\<bar>)
      in if 2 ^ 1024 \<le> m then (if k < 0 then NegInfinity else Infinity)
         else Num (if k < 0 then - int m else int m))"

text \<open>
  A thrown value.  \<open>klass = None\<close> is a thrown value that is not an instance of
  \<open>Error\<close>; \<open>retryable = None\<close> means the object has no \<open>retryable\<close> property,
  otherwise it holds the truthiness of the property; \<open>retryAfter = None\<close> is
  \<open>undefined\<close>.
\<close>

datatype exn = Exn
  (klass: "err_class option")
  (message: string)
  (code: "string option")
  (retryable: "bool option")
  (retryAfter: "jsnum option")
  (provider: "string option")
  (cause: "exn option")

text \<open>The superclass chain of each class, and \<open>instanceof\<close> along it.\<close>

fun superclass :: "err_class \<Rightarrow> err_class option" where
  "superclass Error = None"
| "superclass FaktoorError = Some Error"
| "superclass FaktoorApiError = Some Error"
| "superclass DOMException = Some Error"
| "superclass URIError = Some Error"
| "superclass TypeError = Some Error"
| "superclass SyntaxError = Some Error"
| "superclass AuthenticationError = Some FaktoorError"
| "superclass RateLimitError = Some FaktoorError"
| "superclass NotFoundError = Some FaktoorError"
| "superclass NetworkError = Some FaktoorError"
| "superclass ValidationError = Some FaktoorError"
| "superclass ProviderError = Some FaktoorError"

fun subclass_of :: "err_class \<Rightarrow> err_class \<Rightarrow> bool" where
  "subclass_of c d =
     (c = d \<or>
      (case superclass c of
         None \<Rightarrow> False
       | Some p \<Rightarrow> p = d \<or> (case superclass p of None \<Rightarrow> False | Some q \<Rightarrow> q = d)))"

definition instanceof :: "exn \<Rightarrow> err_class \<Rightarrow> bool" where
  "instanceof e d = (case klass e of None \<Rightarrow> False | Some c \<Rightarrow> subclass_of c d)"

text \<open>The constructors of errors.ts; \<open>retryable ?? false\<close> is written out.\<close>

definition new_FaktoorError ::
  "err_class \<Rightarrow> string \<Rightarrow> string \<Rightarrow> bool option \<Rightarrow> exn option \<Rightarrow> exn" where
  "new_FaktoorError c msg cd r cs =
     Exn (Some c) msg (Some cd) (Some (case r of None \<Rightarrow> False | Some b \<Rightarrow> b)) None None cs"

definition new_AuthenticationError :: "string \<Rightarrow> exn option \<Rightarrow> exn" where
  "new_AuthenticationError msg cs =
     new_FaktoorError AuthenticationError msg ''AUTH_ERROR'' (Some False) cs"

definition new_RateLimitError :: "string \<Rightarrow> jsnum option \<Rightarrow> exn option \<Rightarrow> exn" where
  "new_RateLimitError msg ra cs =
     (case new_FaktoorError RateLimitError msg ''RATE_LIMIT'' (Some True) cs of
        Exn k m c r _ p cs' \<Rightarrow> Exn k m c r ra p cs')"

definition new_NetworkError :: "string \<Rightarrow> exn option \<Rightarrow> exn" where
  "new_NetworkError msg cs =
     new_FaktoorError NetworkError msg ''NETWORK_ERROR'' (Some True) cs"

definition new_ProviderError :: "string \<Rightarrow> string \<Rightarrow> bool option \<Rightarrow> exn option \<Rightarrow> exn" where
  "new_ProviderError prov msg r cs =
     (case new_FaktoorError ProviderError msg ''PROVIDER_ERROR''
             (Some (case r of None \<Rightarrow> False | Some b \<Rightarrow> b)) cs of
        Exn k m c r' ra _ cs' \<Rightarrow> Exn k m c r' ra (Some prov) cs')"

section \<open>Retry policy (client.ts)\<close>

datatype backoff_mode = Exponential | Fixed | NoBackoff

record RetryConfig =
  attempts :: int
  backoff :: backoff_mode
  initialDelay :: real
  maxDelay :: real

text \<open>
  \<open>getDelay\<close>; the value drawn from \<open>Math.random()\<close> is the third argument (it is
  only read on the exponential path).  Delays are real numbers here.  The fixed and the
  \<open>none\<close> path return a field or a constant and do no arithmetic, so they are exact; the
  arithmetic of the exponential path is the exact one, without the rounding, the
  infinities and the \<open>NaN\<close> of doubles, and nothing below depends on its value.
\<close>

definition getDelay :: "nat \<Rightarrow> RetryConfig \<Rightarrow> real \<Rightarrow> real" where
  "getDelay attempt config random =
     (if backoff config = NoBackoff then 0
      else if backoff config = Fixed then initialDelay config
      else (let delay = min (initialDelay config * 2 ^ attempt) (maxDelay config);
                jitter = delay * (1 / 10) * random
            in delay + jitter))"

text \<open>
  The run of \<open>withRetry\<close>: the operation \<open>fn\<close> acts on a world \<open>'w\<close> and either
  returns or throws; the run records how often \<open>fn\<close> was invoked and every delay
  that was slept.
\<close>

record 'w run =
  world :: 'w
  calls :: nat
  sleeps :: "real list"

definition invoke :: "('w \<Rightarrow> (exn + 'a) \<times> 'w) \<Rightarrow> 'w run \<Rightarrow> (exn + 'a) \<times> 'w run" where
  "invoke fn s =
     (case fn (world s) of (r, w') \<Rightarrow> (r, s\<lparr>world := w', calls := Suc (calls s)\<rparr>))"

definition sleep :: "real \<Rightarrow> 'w run \<Rightarrow> 'w run" where
  "sleep ms s = s\<lparr>sleeps := sleeps s @ [ms]\<rparr>"

text \<open>
  The \<open>for\<close> loop of \<open>withRetry\<close>.  The result \<open>Inl None\<close> is
  \<open>throw lastError\<close> with \<open>lastError\<close> still \<open>undefined\<close>.
\<close>

function retry_loop ::
  "('w \<Rightarrow> (exn + 'a) \<times> 'w) \<Rightarrow> RetryConfig \<Rightarrow> (nat \<Rightarrow> real) \<Rightarrow> nat \<Rightarrow> exn option \<Rightarrow> 'w run
     \<Rightarrow> (exn option + 'a) \<times> 'w run" where
  "retry_loop fn config rand attempt lastError s =
     (if int attempt < attempts config then
        (case invoke fn s of
           (Inr v, s') \<Rightarrow> (Inr v, s')
         | (Inl error, s') \<Rightarrow>
             if instanceof error Error \<and> retryable error = Some False
             then (Inl (Some error), s')
             else retry_loop fn config rand (Suc attempt) (Some error)
                    (if int attempt < attempts config - 1
                     then sleep (getDelay attempt config (rand attempt)) s'
                     else s'))
      else (Inl lastError, s))"
  by pat_completeness auto
termination
  by (relation "measure (\<lambda>(fn, config, rand, attempt, lastError, s). nat (attempts config - int attempt))")
     auto

declare retry_loop.simps [simp del]

definition withRetry ::
  "('w \<Rightarrow> (exn + 'a) \<times> 'w) \<Rightarrow> RetryConfig option \<Rightarrow> (nat \<Rightarrow> real) \<Rightarrow> 'w run
     \<Rightarrow> (exn option + 'a) \<times> 'w run" where
  "withRetry fn config rand s =
     (case config of
        None \<Rightarrow> (case invoke fn s of (Inl e, s') \<Rightarrow> (Inl (Some e), s') | (Inr v, s') \<Rightarrow> (Inr v, s'))
      | Some c \<Rightarrow> retry_loop fn c rand 0 None s)"

section \<open>JavaScript strings and the platform's base64 functions\<close>

text \<open>
  A JavaScript string is a sequence of UTF-16 code units.  Identifiers of the wire
  protocol (label ids, MIME types) are written as HOL strings; text content is a list of
  code units.
\<close>

type_synonym ustring = "nat list"

definition js :: "string \<Rightarrow> ustring" where
  "js s = map of_char s"

text \<open>The base64 alphabet: the code unit of a 6-bit value, and back.\<close>

definition b64_char :: "nat \<Rightarrow> nat" where
  "b64_char i =
     (if i < 26 then 65 + i
      else if i < 52 then 97 + (i - 26)
      else if i < 62 then 48 + (i - 52)
      else if i = 62 then 43
      else 47)"

definition b64_index :: "nat \<Rightarrow> nat option" where
  "b64_index c =
     (if 65 \<le> c \<and> c \<le> 90 then Some (c - 65)
      else if 97 \<le> c \<and> c \<le> 122 then Some (c - 97 + 26)
      else if 48 \<le> c \<and> c \<le> 57 then Some (c - 48 + 52)
      else if c = 43 then Some 62
      else if c = 47 then Some 63
      else None)"

fun b64_enc :: "nat list \<Rightarrow> nat list" where
  "b64_enc (a # b # c # rest) =
     b64_char (a div 4) # b64_char ((a mod 4) * 16 + b div 16) #
     b64_char ((b mod 16) * 4 + c div 64) # b64_char (c mod 64) # b64_enc rest"
| "b64_enc [a, b] =
     [b64_char (a div 4), b64_char ((a mod 4) * 16 + b div 16), b64_char ((b mod 16) * 4), 61]"
| "b64_enc [a] = [b64_char (a div 4), b64_char ((a mod 4) * 16), 61, 61]"
| "b64_enc [] = []"

fun b64_dec :: "nat list \<Rightarrow> nat list" where
  "b64_dec (a # b # c # d # rest) =
     (a * 4 + b div 16) # ((b mod 16) * 16 + c div 4) # ((c mod 4) * 64 + d) # b64_dec rest"
| "b64_dec [a, b, c] = [a * 4 + b div 16, (b mod 16) * 16 + c div 4]"
| "b64_dec [a, b] = [a * 4 + b div 16]"
| "b64_dec _ = []"

definition InvalidCharacterError :: exn where
  "InvalidCharacterError = Exn (Some DOMException) ''InvalidCharacterError'' None None None None None"

text \<open>
  \<open>btoa\<close>: the argument must be a binary string (every code unit at most 255), or
  \<open>InvalidCharacterError\<close> is thrown.
\<close>

definition btoa :: "ustring \<Rightarrow> exn + ustring" where
  "btoa s = (if list_all (\<lambda>c. c \<le> 255) s then Inr (b64_enc s) else Inl InvalidCharacterError)"

text \<open>
  \<open>atob\<close> is the forgiving base64 decoder of the HTML standard: ASCII whitespace is
  removed; when the length is a multiple of four, one or two trailing \<open>=\<close> are removed;
  a remaining length of 1 modulo 4 or a character outside the alphabet throws.
\<close>

definition ascii_whitespace :: "nat \<Rightarrow> bool" where
  "ascii_whitespace c = (c = 9 \<or> c = 10 \<or> c = 12 \<or> c = 13 \<or> c = 32)"

definition strip_padding :: "ustring \<Rightarrow> ustring" where
  "strip_padding s =
     (if length s mod 4 = 0 \<and> s \<noteq> [] \<and> last s = 61
      then (if butlast s \<noteq> [] \<and> last (butlast s) = 61 then butlast (butlast s) else butlast s)
      else s)"

definition atob :: "ustring \<Rightarrow> exn + ustring" where
  "atob s =
     (let d = strip_padding (filter (\<lambda>c. \<not> ascii_whitespace c) s)
      in if length d mod 4 = 1 then Inl InvalidCharacterError
         else if list_all (\<lambda>c. b64_index c \<noteq> None) d then Inr (b64_dec (map (\<lambda>c. the (b64_index c)) d))
         else Inl InvalidCharacterError)"

text \<open>
  The runtime the code runs on: whether the globals \<open>atob\<close> and \<open>btoa\<close> exist, and
  Node's \<open>Buffer\<close> functions that the code falls back to when they do not
  (\<open>Buffer.from(x, 'base64').toString('utf-8')\<close> and \<open>Buffer.from(x).toString('base64')\<close>).
\<close>

record platform =
  has_atob :: bool
  has_btoa :: bool
  buffer_base64_to_utf8 :: "ustring \<Rightarrow> ustring"
  buffer_utf8_to_base64 :: "ustring \<Rightarrow> ustring"

text \<open>\<open>String.prototype.replace\<close> with a one-character global pattern.\<close>

definition replace_char :: "nat \<Rightarrow> nat \<Rightarrow> ustring \<Rightarrow> ustring" where
  "replace_char a b s = map (\<lambda>c. if c = a then b else c) s"

section \<open>Gmail wire translator (parser.ts)\<close>

record part_body =
  attachmentId :: "string option"
  body_size :: "int option"
  body_data :: "ustring option"

datatype part = Part
  (mimeType: "string option")
  (filename: "string option")
  (headers: "(string \<times> string) list option")
  (body: "part_body option")
  (parts: "part list option")

record EmailBody =
  body_html :: "ustring option"
  body_text :: ustring

text \<open>\<open>decodeBase64Url\<close> of the Gmail parser: the browser path returns \<open>atob(padded)\<close> as it is.\<close>

definition gmail_decodeBase64Url :: "platform \<Rightarrow> ustring \<Rightarrow> exn + ustring" where
  "gmail_decodeBase64Url pf data_in =
     (let base64 = replace_char 95 47 (replace_char 45 43 data_in);
          padded = base64 @ replicate ((4 - length base64 mod 4) mod 4) 61
      in if has_atob pf then atob padded else Inr (buffer_base64_to_utf8 pf padded))"

text \<open>\<open>part.body?.data\<close> when it is truthy: present and not the empty string.\<close>

definition inline_data :: "part \<Rightarrow> ustring option" where
  "inline_data p =
     (case body p of
        None \<Rightarrow> None
      | Some b \<Rightarrow> (case body_data b of None \<Rightarrow> None | Some d \<Rightarrow> if d = [] then None else Some d))"

text \<open>
  The inner function \<open>processpart\<close> of \<open>extractBody\<close>; its two captured variables
  (the html and the text of the body) are the \<open>EmailBody\<close> that is passed along.
\<close>

fun processpart :: "platform \<Rightarrow> part \<Rightarrow> EmailBody \<Rightarrow> exn + EmailBody"
  and processpart_each :: "platform \<Rightarrow> part list \<Rightarrow> EmailBody \<Rightarrow> exn + EmailBody" where
  "processpart pf (Part mt fname hs b ps) acc =
     (if mt = Some ''text/html'' \<and> inline_data (Part mt fname hs b ps) \<noteq> None then
        (case gmail_decodeBase64Url pf (the (inline_data (Part mt fname hs b ps))) of
           Inl e \<Rightarrow> Inl e
         | Inr v \<Rightarrow> Inr (acc\<lparr>body_html := Some v\<rparr>))
      else if mt = Some ''text/plain'' \<and> inline_data (Part mt fname hs b ps) \<noteq> None then
        (case gmail_decodeBase64Url pf (the (inline_data (Part mt fname hs b ps))) of
           Inl e \<Rightarrow> Inl e
         | Inr v \<Rightarrow> Inr (acc\<lparr>body_text := v\<rparr>))
      else (case ps of None \<Rightarrow> Inr acc | Some subparts \<Rightarrow> processpart_each pf subparts acc))"
| "processpart_each pf [] acc = Inr acc"
| "processpart_each pf (subpart # rest) acc =
     (case processpart pf subpart acc of
        Inl e \<Rightarrow> Inl e
      | Inr acc' \<Rightarrow> processpart_each pf rest acc')"

definition extractBody :: "platform \<Rightarrow> part option \<Rightarrow> exn + EmailBody" where
  "extractBody pf payload =
     (case payload of
        None \<Rightarrow> Inr \<lparr>body_html = None, body_text = []\<rparr>
      | Some p \<Rightarrow> processpart pf p \<lparr>body_html = None, body_text = []\<rparr>)"

record AttachmentMeta =
  att_id :: string
  att_filename :: string
  att_mimeType :: string
  att_size :: int

text \<open>
  The inner function \<open>processPart\<close> of \<open>extractAttachments\<close>; the captured array is
  passed along.  A string is truthy when it is not empty.
\<close>

fun processPart :: "part \<Rightarrow> AttachmentMeta list \<Rightarrow> AttachmentMeta list"
  and processPart_each :: "part list \<Rightarrow> AttachmentMeta list \<Rightarrow> AttachmentMeta list" where
  "processPart (Part mt fname hs b ps) attachments =
     (let attachments' =
        (case b of
           None \<Rightarrow> attachments
         | Some bd \<Rightarrow>
             (case (attachmentId bd, fname) of
                (Some aid, Some f) \<Rightarrow>
                  if aid \<noteq> [] \<and> f \<noteq> []
                  then attachments @
                       [\<lparr>att_id = aid, att_filename = f,
                         att_mimeType = (case mt of None \<Rightarrow> ''application/octet-stream'' | Some m \<Rightarrow> m),
                         att_size = (case body_size bd of None \<Rightarrow> 0 | Some n \<Rightarrow> n)\<rparr>]
                  else attachments
              | _ \<Rightarrow> attachments))
      in case ps of None \<Rightarrow> attachments' | Some subparts \<Rightarrow> processPart_each subparts attachments')"
| "processPart_each [] attachments = attachments"
| "processPart_each (subpart # rest) attachments =
     processPart_each rest (processPart subpart attachments)"

definition extractAttachments :: "part option \<Rightarrow> string \<Rightarrow> AttachmentMeta list" where
  "extractAttachments payload messageId =
     (case payload of None \<Rightarrow> [] | Some p \<Rightarrow> processPart p [])"

datatype folder_type = inbox | sent | drafts | trash | spam | archive | custom

definition labelToFolderType :: "string \<Rightarrow> folder_type" where
  "labelToFolderType labelId =
     (if labelId = ''INBOX'' then inbox
      else if labelId = ''SENT'' then sent
      else if labelId = ''DRAFT'' then drafts
      else if labelId = ''TRASH'' then trash
      else if labelId = ''SPAM'' then spam
      else custom)"

record wire_label =
  wl_id :: string
  wl_name :: string
  wl_type :: string
  messagesTotal :: "int option"
  messagesUnread :: "int option"

record Folder =
  folder_name :: string
  folder_path :: string
  folder_type :: folder_type
  totalCount :: int
  unreadCount :: int

definition labelToFolder :: "wire_label \<Rightarrow> Folder" where
  "labelToFolder label =
     \<lparr>folder_name = wl_name label,
      folder_path = wl_id label,
      folder_type = labelToFolderType (wl_id label),
      totalCount = (case messagesTotal label of None \<Rightarrow> 0 | Some n \<Rightarrow> n),
      unreadCount = (case messagesUnread label of None \<Rightarrow> 0 | Some n \<Rightarrow> n)\<rparr>"

datatype label_kind = system | user

record GmailLabel =
  gl_id :: string
  gl_name :: string
  gl_type :: label_kind

record wire_message =
  wm_id :: string
  wm_threadId :: string
  wm_labelIds :: "string list option"
  wm_snippet :: "ustring option"
  wm_sizeEstimate :: "int option"
  wm_payload :: "part option"
  wm_raw :: "ustring option"

text \<open>
  The fields of the resulting email that are derived from the labels, the part tree and
  the message itself.  The address, subject, date and header fields of the source's
  result are left out of this record.
\<close>

record GmailEmail =
  email_id :: string
  email_threadId :: string
  email_folder :: string
  email_body :: EmailBody
  isRead :: bool
  isStarred :: bool
  isDraft :: bool
  email_labels :: "GmailLabel list"
  email_attachments :: "AttachmentMeta list"
  email_raw :: "ustring option"
  email_snippet :: ustring
  email_sizeEstimate :: int
  gmailLabels :: "GmailLabel list"

definition folder_ids :: "string list" where
  "folder_ids = [''INBOX'', ''SENT'', ''DRAFT'', ''TRASH'', ''SPAM'']"

definition parseGmailMessage :: "platform \<Rightarrow> wire_message \<Rightarrow> exn + GmailEmail" where
  "parseGmailMessage pf msg =
     (let payload = wm_payload msg;
          labelIds = (case wm_labelIds msg of None \<Rightarrow> [] | Some ls \<Rightarrow> ls);
          folderLabel = (case find (\<lambda>l. l \<in> set folder_ids) labelIds of
                           None \<Rightarrow> ''INBOX'' | Some l \<Rightarrow> l)
      in case extractBody pf payload of
           Inl e \<Rightarrow> Inl e
         | Inr bd \<Rightarrow>
             (let attachments = extractAttachments payload (wm_id msg);
                  gls = map (\<lambda>i. \<lparr>gl_id = i, gl_name = i,
                                   gl_type = (if take 6 i = ''Label_'' then user else system)\<rparr>)
                            labelIds
              in Inr \<lparr>email_id = wm_id msg,
                      email_threadId = wm_threadId msg,
                      email_folder = folderLabel,
                      email_body = bd,
                      isRead = (''UNREAD'' \<notin> set labelIds),
                      isStarred = (''STARRED'' \<in> set labelIds),
                      isDraft = (''DRAFT'' \<in> set labelIds),
                      email_labels = gls,
                      email_attachments = attachments,
                      email_raw = wm_raw msg,
                      email_snippet = (case wm_snippet msg of None \<Rightarrow> [] | Some sn \<Rightarrow> sn),
                      email_sizeEstimate = (case wm_sizeEstimate msg of None \<Rightarrow> 0 | Some n \<Rightarrow> n),
                      gmailLabels = gls\<rparr>))"

subsection \<open>The rules of the specification, for comparison\<close>

text \<open>
  The folder rule as the specification words it: the first tag in the fixed priority
  order inbox, sent, draft, trash, spam that occurs among the message's tags, and inbox
  when none does.
\<close>

definition spec_folder_by_priority :: "string list \<Rightarrow> string" where
  "spec_folder_by_priority labelIds =
     (case find (\<lambda>t. t \<in> set labelIds) folder_ids of None \<Rightarrow> ''INBOX'' | Some t \<Rightarrow> t)"

text \<open>
  The parts that the walk of \<open>extractBody\<close> assigns from, in document order: a part
  of the given MIME type with inline content.  A part that is such a leaf for either of
  the two types is not descended into.
\<close>

fun assigned :: "part \<Rightarrow> (string \<times> ustring) list"
  and assigned_each :: "part list \<Rightarrow> (string \<times> ustring) list" where
  "assigned (Part mt fname hs b ps) =
     (if (mt = Some ''text/html'' \<or> mt = Some ''text/plain'') \<and> inline_data (Part mt fname hs b ps) \<noteq> None
      then [(the mt, the (inline_data (Part mt fname hs b ps)))]
      else (case ps of None \<Rightarrow> [] | Some subparts \<Rightarrow> assigned_each subparts))"
| "assigned_each [] = []"
| "assigned_each (p # rest) = assigned p @ assigned_each rest"

definition inline_of :: "string \<Rightarrow> part \<Rightarrow> ustring list" where
  "inline_of mt p = map snd (filter (\<lambda>x. fst x = mt) (assigned p))"

section \<open>Gmail API client (api.ts)\<close>

text \<open>
  What \<open>response.json()\<close> gives: the body may fail to parse (the promise rejects), it
  may parse to \<open>null\<close>, or it parses to a value whose \<open>error?.message\<close> is the given
  string (\<open>None\<close> when that property is absent).
\<close>

datatype json_body = Unparsable | Json_null | Json "string option"

record response =
  status :: int
  statusText :: string
  resp_headers :: "(string \<times> string) list"
  resp_body :: json_body

text \<open>\<open>response.ok\<close> is true for the statuses 200 to 299.\<close>

definition ok :: "response \<Rightarrow> bool" where
  "ok r = (200 \<le> status r \<and> status r \<le> 299)"

text \<open>\<open>Headers.get\<close> compares header names without regard to ASCII case.\<close>

definition lower_char :: "char \<Rightarrow> char" where
  "lower_char c =
     (if (65::nat) \<le> of_char c \<and> of_char c \<le> (90::nat) then char_of (of_char c + (32::nat)) else c)"

definition headers_get :: "(string \<times> string) list \<Rightarrow> string \<Rightarrow> string option" where
  "headers_get hs name =
     map_option snd (find (\<lambda>h. map lower_char (fst h) = map lower_char name) hs)"

text \<open>
  \<open>Number.parseInt(s, 10)\<close>: leading white space is skipped, then an optional sign, then
  the longest run of decimal digits is read; no digit gives \<open>NaN\<close>, and the value of
  the digits is rounded to a double.  \<open>times1000\<close> is the product with 1000, rounded
  again.
\<close>

definition is_digit :: "char \<Rightarrow> bool" where
  "is_digit c = ((48::nat) \<le> of_char c \<and> of_char c \<le> (57::nat))"

definition is_space :: "char \<Rightarrow> bool" where
  "is_space c = (of_char c \<in> {9, 10, 11, 12, 13, 32, 160 :: nat})"

definition digits_value :: "string \<Rightarrow> int" where
  "digits_value ds = foldl (\<lambda>acc d. acc * 10 + (int (of_char d) - 48)) 0 ds"

definition parseInt10 :: "string \<Rightarrow> jsnum" where
  "parseInt10 s =
     (let t = dropWhile is_space s;
          neg = (t \<noteq> [] \<and> hd t = CHR ''-'');
          u = (if t \<noteq> [] \<and> (hd t = CHR ''-'' \<or> hd t = CHR ''+'') then tl t else t);
          ds = takeWhile is_digit u
      in if ds = [] then NaN else to_double (if neg then - digits_value ds else digits_value ds))"

definition times1000 :: "jsnum \<Rightarrow> jsnum" where
  "times1000 n =
     (case n of NaN \<Rightarrow> NaN | Infinity \<Rightarrow> Infinity | NegInfinity \<Rightarrow> NegInfinity
      | Num k \<Rightarrow> to_double (k * 1000))"

definition new_TypeError :: "string \<Rightarrow> exn" where
  "new_TypeError msg = Exn (Some TypeError) msg None None None None None"

definition new_SyntaxError :: "string \<Rightarrow> exn" where
  "new_SyntaxError msg = Exn (Some SyntaxError) msg None None None None None"

text \<open>
  \<open>handleError\<close> never returns: the result is the value it throws.  A body that does
  not parse leaves \<open>errorData\<close> at \<open>{}\<close>; a body that parses to \<open>null\<close> makes
  \<open>errorData.error\<close> throw a \<open>TypeError\<close>.
\<close>

definition handleError :: "response \<Rightarrow> exn" where
  "handleError r =
     (case (case resp_body r of Unparsable \<Rightarrow> Inr None | Json_null \<Rightarrow> Inl () | Json m \<Rightarrow> Inr m) of
        Inl _ \<Rightarrow> new_TypeError ''Cannot read properties of null''
      | Inr m \<Rightarrow>
          (let message = (case m of None \<Rightarrow> statusText r | Some t \<Rightarrow> if t = [] then statusText r else t)
           in if status r = 401 then new_AuthenticationError message None
              else if status r = 429 then
                (let retryAfter = headers_get (resp_headers r) ''Retry-After''
                 in new_RateLimitError message
                      (case retryAfter of
                         None \<Rightarrow> None
                       | Some h \<Rightarrow> if h = [] then None else Some (times1000 (parseInt10 h)))
                      None)
              else if status r = 403 then new_AuthenticationError (''Access denied: '' @ message) None
              else if status r = 404 then new_ProviderError ''gmail'' (''Not found: '' @ message) None None
              else new_ProviderError ''gmail'' message (Some (500 \<le> status r)) None))"

text \<open>
  The state of the client that \<open>request\<close> reads: whether \<open>expiresAt\<close> is set and in the
  past, and whether a refresh token is held.
\<close>

record api_state =
  token_expired :: bool
  has_refreshToken :: bool

text \<open>
  \<open>request\<close>, given the outcome of \<open>fetch\<close> (a rejection or a response).  The result
  \<open>Inr None\<close> is the \<open>undefined\<close> returned for status 204.
\<close>

definition request :: "api_state \<Rightarrow> exn + response \<Rightarrow> exn + json_body option" where
  "request st fetched =
     (if token_expired st then
        (if has_refreshToken st
         then Inl (new_AuthenticationError ''Token expired. Refresh token flow not yet implemented.'' None)
         else Inl (new_AuthenticationError ''Token expired'' None))
      else
        (case (case fetched of
                 Inl e \<Rightarrow> Inl e
               | Inr r \<Rightarrow>
                   if \<not> ok r then Inl (handleError r)
                   else if status r = 204 then Inr None
                   else (case resp_body r of
                           Unparsable \<Rightarrow> Inl (new_SyntaxError ''Unexpected token'')
                         | b \<Rightarrow> Inr (Some b))) of
           Inr v \<Rightarrow> Inr v
         | Inl error \<Rightarrow>
             if instanceof error FaktoorApiError then Inl error
             else Inl (new_NetworkError ''Failed to connect to Gmail API'' (Some error))))"

section \<open>Streaming (provider.ts)\<close>

record list_response =
  messages :: "(string \<times> string) list option"
  nextPageToken :: "string option"

text \<open>
  The backend as the generator sees it through \<open>api.messages.list\<close> and
  \<open>api.messages.get\<close>, each of which returns or throws.  The label ids, the query and
  the batch size are the same in every list request of one stream; a list request is
  identified here by its page token alone.
\<close>

record backend =
  list_page :: "string option \<Rightarrow> exn + list_response"
  get_message :: "string \<Rightarrow> exn + wire_message"

datatype api_call = ListCall "string option" | GetCall string

text \<open>
  The async generator \<open>stream\<close> as a state machine.  \<open>Suspended ms t\<close> is the
  generator waiting at its \<open>yield\<close>, with \<open>ms\<close> the messages of the current page that
  the \<open>for\<close> loop has not reached yet and \<open>t\<close> the \<open>nextPageToken\<close> of that page.
\<close>

datatype generator = NotStarted | Suspended "(string \<times> string) list" "string option" | Completed

datatype 'a iter_result = Yield 'a | Done | Throw exn

record stream_state =
  gen :: generator
  issued :: "api_call list"

text \<open>The body of the \<open>for\<close> loop for the next message of the page, up to its \<open>yield\<close>.\<close>

definition fetch_one ::
  "platform \<Rightarrow> backend \<Rightarrow> string \<times> string \<Rightarrow> (string \<times> string) list \<Rightarrow> string option
     \<Rightarrow> api_call list \<Rightarrow> GmailEmail iter_result \<times> stream_state" where
  "fetch_one pf be msg rest npt calls0 =
     (let calls1 = calls0 @ [GetCall (fst msg)]
      in case get_message be (fst msg) of
           Inl e \<Rightarrow> (Throw e, \<lparr>gen = Completed, issued = calls1\<rparr>)
         | Inr full \<Rightarrow>
             (case parseGmailMessage pf full of
                Inl e \<Rightarrow> (Throw e, \<lparr>gen = Completed, issued = calls1\<rparr>)
              | Inr email \<Rightarrow> (Yield email, \<lparr>gen = Suspended rest npt, issued = calls1\<rparr>)))"

text \<open>One turn of the \<open>do ... while\<close> loop: the page request, up to the first \<open>yield\<close>.\<close>

definition fetch_page ::
  "platform \<Rightarrow> backend \<Rightarrow> string option \<Rightarrow> api_call list \<Rightarrow> GmailEmail iter_result \<times> stream_state" where
  "fetch_page pf be pageToken calls0 =
     (let calls1 = calls0 @ [ListCall pageToken]
      in case list_page be pageToken of
           Inl e \<Rightarrow> (Throw e, \<lparr>gen = Completed, issued = calls1\<rparr>)
         | Inr resp \<Rightarrow>
             (case messages resp of
                None \<Rightarrow> (Done, \<lparr>gen = Completed, issued = calls1\<rparr>)
              | Some [] \<Rightarrow> (Done, \<lparr>gen = Completed, issued = calls1\<rparr>)
              | Some (msg # rest) \<Rightarrow> fetch_one pf be msg rest (nextPageToken resp) calls1))"

text \<open>\<open>next()\<close> on the generator: run to the next \<open>yield\<close>, to the end, or to a throw.\<close>

definition gen_next :: "platform \<Rightarrow> backend \<Rightarrow> stream_state \<Rightarrow> GmailEmail iter_result \<times> stream_state" where
  "gen_next pf be s =
     (case gen s of
        NotStarted \<Rightarrow> fetch_page pf be None (issued s)
      | Suspended (msg # rest) npt \<Rightarrow> fetch_one pf be msg rest npt (issued s)
      | Suspended [] npt \<Rightarrow>
          (case npt of
             None \<Rightarrow> (Done, s\<lparr>gen := Completed\<rparr>)
           | Some t \<Rightarrow> if t = [] then (Done, s\<lparr>gen := Completed\<rparr>)
                      else fetch_page pf be (Some t) (issued s))
      | Completed \<Rightarrow> (Done, s))"

text \<open>\<open>return()\<close> on the generator, which a consumer's \<open>break\<close> calls.\<close>

definition gen_return :: "stream_state \<Rightarrow> stream_state" where
  "gen_return s = s\<lparr>gen := Completed\<rparr>"

text \<open>
  A consumer that takes at most \<open>n\<close> items with \<open>for await\<close> and then breaks out of the
  loop: the items it received and the state the stream is left in.
\<close>

fun consume :: "platform \<Rightarrow> backend \<Rightarrow> nat \<Rightarrow> stream_state \<Rightarrow> GmailEmail list \<times> stream_state" where
  "consume pf be 0 s = ([], gen_return s)"
| "consume pf be (Suc n) s =
     (case gen_next pf be s of
        (Yield email, s') \<Rightarrow> (case consume pf be n s' of (es, s'') \<Rightarrow> (email # es, s''))
      | (Done, s') \<Rightarrow> ([], s')
      | (Throw e, s') \<Rightarrow> ([], s'))"

definition list_calls :: "api_call list \<Rightarrow> nat" where
  "list_calls cs = length (filter (\<lambda>c. case c of ListCall _ \<Rightarrow> True | GetCall _ \<Rightarrow> False) cs)"

section \<open>Regular expressions as the parser package uses them\<close>

text \<open>
  The patterns of utils.ts need character classes, greedy and lazy repetition of a class,
  greedy optional groups, capture groups and the end anchor.  \<open>Close\<close> and
  \<open>Progress\<close> do not occur in a written pattern: the matcher puts them behind the
  body of a group, to record the capture and to reject an optional group that matched the
  empty string (as the RepeatMatcher of ECMAScript does).
\<close>

datatype rx =
    Cls "nat \<Rightarrow> bool"
  | Star "nat \<Rightarrow> bool"
  | LazyStar "nat \<Rightarrow> bool"
  | Opt "rx list"
  | Grp nat "rx list"
  | Eos
  | Close nat ustring
  | Progress ustring

fun rx_weight :: "rx \<Rightarrow> nat" where
  "rx_weight (Opt rs) = 2 + sum_list (map rx_weight rs)"
| "rx_weight (Grp n rs) = 2 + sum_list (map rx_weight rs)"
| "rx_weight _ = 1"

text \<open>
  The backtracking matcher: \<open>rx_match p s caps\<close> matches the pattern \<open>p\<close> at the start
  of \<open>s\<close> and returns the rest of the string behind the match together with the
  captures of the first match in the priority order of backtracking.
\<close>

function rx_match ::
  "rx list \<Rightarrow> ustring \<Rightarrow> (nat \<times> ustring) list \<Rightarrow> (ustring \<times> (nat \<times> ustring) list) option" where
  "rx_match [] s caps = Some (s, caps)"
| "rx_match (Cls p # r) s caps =
     (case s of [] \<Rightarrow> None | c # cs \<Rightarrow> if p c then rx_match r cs caps else None)"
| "rx_match (Star p # r) s caps =
     (case s of
        [] \<Rightarrow> rx_match r s caps
      | c # cs \<Rightarrow>
          if p c then
            (case rx_match (Star p # r) cs caps of
               Some res \<Rightarrow> Some res
             | None \<Rightarrow> rx_match r s caps)
          else rx_match r s caps)"
| "rx_match (LazyStar p # r) s caps =
     (case rx_match r s caps of
        Some res \<Rightarrow> Some res
      | None \<Rightarrow>
          (case s of
             [] \<Rightarrow> None
           | c # cs \<Rightarrow> if p c then rx_match (LazyStar p # r) cs caps else None))"
| "rx_match (Opt inner # r) s caps =
     (case rx_match (inner @ Progress s # r) s caps of
        Some res \<Rightarrow> Some res
      | None \<Rightarrow> rx_match r s caps)"
| "rx_match (Grp n inner # r) s caps = rx_match (inner @ Close n s # r) s caps"
| "rx_match (Eos # r) s caps = (if s = [] then rx_match r s caps else None)"
| "rx_match (Close n s0 # r) s caps =
     rx_match r s ((n, take (length s0 - length s) s0) # caps)"
| "rx_match (Progress s0 # r) s caps = (if length s = length s0 then None else rx_match r s caps)"
  by pat_completeness auto
termination
  by (relation "measures [\<lambda>(p, s, caps). length s, \<lambda>(p, s, caps). sum_list (map rx_weight p)]")
     auto

text \<open>Patterns for a literal text, with and without the \<open>i\<close> flag.\<close>

definition lit :: "string \<Rightarrow> rx list" where
  "lit s = map (\<lambda>c. Cls (\<lambda>x. x = of_char c)) s"

definition upper_code :: "nat \<Rightarrow> nat" where
  "upper_code c = (if 97 \<le> c \<and> c \<le> 122 then c - 32 else c)"

definition ci_eq :: "nat \<Rightarrow> nat \<Rightarrow> bool" where
  "ci_eq a x = (x < 128 \<and> upper_code x = upper_code a)"

definition lit_ci :: "string \<Rightarrow> rx list" where
  "lit_ci s = map (\<lambda>c. Cls (ci_eq (of_char c))) s"

text \<open>
  The class \<open>\s\<close>, which is also what \<open>trim\<close> removes: the white space and line
  terminator code units of ECMAScript.
\<close>

definition js_space :: "nat \<Rightarrow> bool" where
  "js_space c =
     (c = 9 \<or> c = 10 \<or> c = 11 \<or> c = 12 \<or> c = 13 \<or> c = 32 \<or> c = 160 \<or> c = 5760 \<or>
      (8192 \<le> c \<and> c \<le> 8202) \<or> c = 8232 \<or> c = 8233 \<or> c = 8239 \<or> c = 8287 \<or>
      c = 12288 \<or> c = 65279)"

definition trim :: "ustring \<Rightarrow> ustring" where
  "trim s = rev (dropWhile js_space (rev (dropWhile js_space s)))"

section \<open>Address and text codecs (utils.ts)\<close>

record Address =
  email :: ustring
  name :: "ustring option"

text \<open>
  The pattern of \<open>parseAddress\<close>:
  \<^verbatim>\<open>/^(?:"?([^"<]*)"?\s*)?<?([^>@\s]+@[^>@\s]+)>?$/\<close>,
  with \<open>name_chr\<close> the class \<^verbatim>\<open>[^"<]\<close> and \<open>email_chr\<close> the class \<^verbatim>\<open>[^>@\s]\<close>.
\<close>

definition name_chr :: "nat \<Rightarrow> bool" where
  "name_chr c = (c \<noteq> 34 \<and> c \<noteq> 60)"

definition email_chr :: "nat \<Rightarrow> bool" where
  "email_chr c = (c \<noteq> 62 \<and> c \<noteq> 64 \<and> \<not> js_space c)"

definition address_rx :: "rx list" where
  "address_rx =
     [Opt [Opt (lit ''\"''), Grp 1 [Star name_chr], Opt (lit ''\"''), Star js_space],
      Opt (lit ''<''),
      Grp 2 [Cls email_chr, Star email_chr, Cls (\<lambda>c. c = 64), Cls email_chr, Star email_chr],
      Opt (lit ''>''),
      Eos]"

text \<open>
  \<open>parseAddress\<close>.  The pattern is anchored at the start, so the only match position is
  0.  A group that did not take part in the match is \<open>undefined\<close>; \<open>name?.trim() || undefined\<close>
  turns an empty name into \<open>undefined\<close> as well.
\<close>

definition parseAddress :: "ustring \<Rightarrow> Address" where
  "parseAddress raw =
     (let trimmed = trim raw
      in case rx_match address_rx trimmed [] of
           None \<Rightarrow> \<lparr>email = trimmed, name = None\<rparr>
         | Some (rest, caps) \<Rightarrow>
             \<lparr>email = (case map_of caps 2 of None \<Rightarrow> trimmed | Some e \<Rightarrow> trim e),
              name = (case map_of caps 1 of
                        None \<Rightarrow> None
                      | Some n \<Rightarrow> if trim n = [] then None else Some (trim n))\<rparr>)"

text \<open>\<open>formatAddress\<close>; a name is used when it is present and not empty.\<close>

definition formatAddress :: "Address \<Rightarrow> ustring" where
  "formatAddress address =
     (case name address of
        None \<Rightarrow> email address
      | Some n \<Rightarrow> if n = [] then email address
                  else js ''\"'' @ n @ js ''\" <'' @ email address @ js ''>'')"

text \<open>
  \<open>String.prototype.replace\<close> with a global pattern and a replacement computed from the
  captures: the matches are found from left to right, each search starting behind the
  previous match; behind an empty match the search moves on by one code unit.
\<close>

function replace_all :: "rx list \<Rightarrow> ((nat \<times> ustring) list \<Rightarrow> ustring) \<Rightarrow> ustring \<Rightarrow> ustring" where
  "replace_all pat f [] =
     (case rx_match pat [] [] of Some (rest, caps) \<Rightarrow> f caps | None \<Rightarrow> [])"
| "replace_all pat f (c # cs) =
     (case rx_match pat (c # cs) [] of
        Some (rest, caps) \<Rightarrow>
          if length rest < Suc (length cs) then f caps @ replace_all pat f rest
          else f caps @ c # replace_all pat f cs
      | None \<Rightarrow> c # replace_all pat f cs)"
  by pat_completeness auto
termination
  by (relation "measure (\<lambda>(pat, f, s). length s)") auto

declare replace_all.simps [simp del]

text \<open>The same with a pattern that is not global: only the first match is replaced.\<close>

fun replace_first :: "rx list \<Rightarrow> ((nat \<times> ustring) list \<Rightarrow> ustring) \<Rightarrow> ustring \<Rightarrow> ustring" where
  "replace_first pat f [] =
     (case rx_match pat [] [] of Some (rest, caps) \<Rightarrow> f caps @ rest | None \<Rightarrow> [])"
| "replace_first pat f (c # cs) =
     (case rx_match pat (c # cs) [] of
        Some (rest, caps) \<Rightarrow> f caps @ rest
      | None \<Rightarrow> c # replace_first pat f cs)"

text \<open>
  \<open>String.fromCharCode(Number.parseInt(num, 10))\<close> for a run of decimal digits: the
  value of the digits is rounded to a double, and the double modulo \<open>2^16\<close> is the one
  code unit of the result.  (An infinite double gives the code unit 0; so does the
  formula, since every double from \<open>2^69\<close> on is a multiple of \<open>2^16\<close>.)
\<close>

definition digit_code :: "nat \<Rightarrow> bool" where
  "digit_code c = (48 \<le> c \<and> c \<le> 57)"

definition fromCharCode_digits :: "ustring \<Rightarrow> ustring" where
  "fromCharCode_digits ds =
     [round_double (foldl (\<lambda>acc d. acc * 10 + (d - 48)) 0 ds) mod 65536]"

text \<open>The two block patterns of \<open>htmlToText\<close>, and the two passes that use them.\<close>

definition style_rx :: "rx list" where
  "style_rx = lit_ci ''<style'' @ [Star (\<lambda>c. c \<noteq> 62)] @ lit ''>'' @
              [LazyStar (\<lambda>c. True)] @ lit_ci ''</style>''"

definition script_rx :: "rx list" where
  "script_rx = lit_ci ''<script'' @ [Star (\<lambda>c. c \<noteq> 62)] @ lit ''>'' @
               [LazyStar (\<lambda>c. True)] @ lit_ci ''</script>''"

definition strip_style :: "ustring \<Rightarrow> ustring" where
  "strip_style s = replace_all style_rx (\<lambda>_. []) s"

definition strip_script :: "ustring \<Rightarrow> ustring" where
  "strip_script s = replace_all script_rx (\<lambda>_. []) s"

text \<open>
  The remaining passes of \<open>htmlToText\<close>, in the order of the source.  The replacement
  of the \<open>li\<close> pass is the string literal as the source file holds it (the code units
  226, 8364, 162 and a space).
\<close>

definition reduce_markup :: "ustring \<Rightarrow> ustring" where
  "reduce_markup s =
     trim
      (replace_all [Cls (\<lambda>c. c = 10), Cls (\<lambda>c. c = 10), Cls (\<lambda>c. c = 10), Star (\<lambda>c. c = 10)]
         (\<lambda>_. [10, 10])
      (replace_all (lit ''&#'' @ [Grp 1 [Cls digit_code, Star digit_code]] @ lit '';'')
         (\<lambda>caps. case map_of caps 1 of None \<Rightarrow> [] | Some num \<Rightarrow> fromCharCode_digits num)
      (replace_all (lit ''&quot;'') (\<lambda>_. [34])
      (replace_all (lit ''&gt;'') (\<lambda>_. [62])
      (replace_all (lit ''&lt;'') (\<lambda>_. [60])
      (replace_all (lit ''&amp;'') (\<lambda>_. [38])
      (replace_all (lit ''&nbsp;'') (\<lambda>_. [32])
      (replace_all ([Cls (\<lambda>c. c = 60), Cls (\<lambda>c. c \<noteq> 62), Star (\<lambda>c. c \<noteq> 62)] @ lit ''>'') (\<lambda>_. [])
      (replace_all (lit_ci ''<li'' @ [Star (\<lambda>c. c \<noteq> 62)] @ lit ''>'') (\<lambda>_. [226, 8364, 162, 32])
      (replace_all (lit_ci ''</li>'') (\<lambda>_. [10])
      (replace_all (lit_ci ''</div>'') (\<lambda>_. [10])
      (replace_all (lit_ci ''</p>'') (\<lambda>_. [10, 10])
      (replace_all (lit_ci ''<br'' @ [Star js_space, Opt (lit ''/'')] @ lit ''>'') (\<lambda>_. [10])
         s)))))))))))))"

definition htmlToText :: "ustring \<Rightarrow> ustring" where
  "htmlToText html_in = reduce_markup (strip_script (strip_style html_in))"

section \<open>The platform's URI functions\<close>

definition new_URIError :: exn where
  "new_URIError = Exn (Some URIError) ''URI malformed'' None None None None None"

text \<open>Hexadecimal digits: the value of a digit, and the digit of a value in either case.\<close>

definition hexval :: "nat \<Rightarrow> nat option" where
  "hexval c =
     (if 48 \<le> c \<and> c \<le> 57 then Some (c - 48)
      else if 65 \<le> c \<and> c \<le> 70 then Some (c - 55)
      else if 97 \<le> c \<and> c \<le> 102 then Some (c - 87)
      else None)"

definition hex_upper :: "nat \<Rightarrow> nat" where
  "hex_upper v = (if v < 10 then 48 + v else 55 + v)"

definition hex_lower :: "nat \<Rightarrow> nat" where
  "hex_lower v = (if v < 10 then 48 + v else 87 + v)"

text \<open>The value of the two hexadecimal digits at the start of a string, when there are two.\<close>

fun hex2 :: "ustring \<Rightarrow> nat option" where
  "hex2 (a # b # rest) =
     (case hexval a of
        None \<Rightarrow> None
      | Some x \<Rightarrow> (case hexval b of None \<Rightarrow> None | Some y \<Rightarrow> Some (16 * x + y)))"
| "hex2 _ = None"

fun hex4 :: "ustring \<Rightarrow> nat option" where
  "hex4 (a # b # c # d # rest) =
     (case hex2 [a, b] of
        None \<Rightarrow> None
      | Some x \<Rightarrow> (case hex2 [c, d] of None \<Rightarrow> None | Some y \<Rightarrow> Some (256 * x + y)))"
| "hex4 _ = None"

text \<open>UTF-8: the bytes of a code point.\<close>

definition utf8_encode :: "nat \<Rightarrow> nat list" where
  "utf8_encode cp =
     (if cp < 128 then [cp]
      else if cp < 2048 then [192 + cp div 64, 128 + cp mod 64]
      else if cp < 65536 then [224 + cp div 4096, 128 + (cp div 64) mod 64, 128 + cp mod 64]
      else [240 + cp div 262144, 128 + (cp div 4096) mod 64, 128 + (cp div 64) mod 64,
            128 + cp mod 64])"

text \<open>
  The code point of a byte sequence, when the sequence is the valid UTF-8 encoding of one
  code point: continuation bytes in range, no overlong form, no surrogate, at most
  \<open>0x10FFFF\<close>.
\<close>

definition continuation :: "nat \<Rightarrow> bool" where
  "continuation b = (128 \<le> b \<and> b < 192)"

definition utf8_decode :: "nat list \<Rightarrow> nat option" where
  "utf8_decode bs =
     (case bs of
        [a] \<Rightarrow> if a < 128 then Some a else None
      | [a, b] \<Rightarrow>
          if 192 \<le> a \<and> a < 224 \<and> continuation b \<and> 128 \<le> (a - 192) * 64 + (b - 128)
          then Some ((a - 192) * 64 + (b - 128)) else None
      | [a, b, c] \<Rightarrow>
          (let v = (a - 224) * 4096 + (b - 128) * 64 + (c - 128)
           in if 224 \<le> a \<and> a < 240 \<and> continuation b \<and> continuation c \<and> 2048 \<le> v \<and>
                 \<not> (55296 \<le> v \<and> v < 57344)
              then Some v else None)
      | [a, b, c, d] \<Rightarrow>
          (let v = (a - 240) * 262144 + (b - 128) * 4096 + (c - 128) * 64 + (d - 128)
           in if 240 \<le> a \<and> a < 248 \<and> continuation b \<and> continuation c \<and> continuation d \<and>
                 65536 \<le> v \<and> v < 1114112
              then Some v else None)
      | _ \<Rightarrow> None)"

text \<open>UTF-16: the code units of a code point.\<close>

definition utf16_encode :: "nat \<Rightarrow> ustring" where
  "utf16_encode v =
     (if v < 65536 then [v]
      else [55296 + (v - 65536) div 1024, 56320 + (v - 65536) mod 1024])"

text \<open>
  \<open>encodeURIComponent\<close>: the unreserved characters stay; every other code point (a
  surrogate pair is one code point) becomes the escapes \<open>%XX\<close> of its UTF-8 bytes, with
  upper-case digits; a lone surrogate throws \<open>URIError\<close>.
\<close>

definition unreserved :: "nat \<Rightarrow> bool" where
  "unreserved c =
     ((48 \<le> c \<and> c \<le> 57) \<or> (65 \<le> c \<and> c \<le> 90) \<or> (97 \<le> c \<and> c \<le> 122) \<or>
      c \<in> {45, 95, 46, 33, 126, 42, 39, 40, 41})"

definition escape_upper :: "nat \<Rightarrow> ustring" where
  "escape_upper b = [37, hex_upper (b div 16), hex_upper (b mod 16)]"

definition high_surrogate :: "nat \<Rightarrow> bool" where
  "high_surrogate c = (55296 \<le> c \<and> c \<le> 56319)"

definition low_surrogate :: "nat \<Rightarrow> bool" where
  "low_surrogate c = (56320 \<le> c \<and> c \<le> 57343)"

fun encodeURIComponent :: "ustring \<Rightarrow> exn + ustring" where
  "encodeURIComponent [] = Inr []"
| "encodeURIComponent [c] =
     (if unreserved c then Inr [c]
      else if low_surrogate c \<or> high_surrogate c then Inl new_URIError
      else Inr (concat (map escape_upper (utf8_encode c))))"
| "encodeURIComponent (c # d # rest) =
     (if unreserved c then
        (case encodeURIComponent (d # rest) of Inl e \<Rightarrow> Inl e | Inr r \<Rightarrow> Inr (c # r))
      else if low_surrogate c then Inl new_URIError
      else if high_surrogate c then
        (if low_surrogate d then
           (case encodeURIComponent rest of
              Inl e \<Rightarrow> Inl e
            | Inr r \<Rightarrow>
                Inr (concat (map escape_upper
                       (utf8_encode ((c - 55296) * 1024 + (d - 56320) + 65536))) @ r))
         else Inl new_URIError)
      else
        (case encodeURIComponent (d # rest) of
           Inl e \<Rightarrow> Inl e
         | Inr r \<Rightarrow> Inr (concat (map escape_upper (utf8_encode c)) @ r)))"

text \<open>
  \<open>unescape\<close>: \<open>%uXXXX\<close> and \<open>%XX\<close> become the code unit they name; everything else
  stays.
\<close>

function unescape :: "ustring \<Rightarrow> ustring" where
  "unescape [] = []"
| "unescape (c # cs) =
     (if c = 37 \<and> cs \<noteq> [] \<and> hd cs = 117 \<and> hex4 (tl cs) \<noteq> None
      then the (hex4 (tl cs)) # unescape (drop 5 cs)
      else if c = 37 \<and> hex2 cs \<noteq> None
      then the (hex2 cs) # unescape (drop 2 cs)
      else c # unescape cs)"
  by pat_completeness auto
termination
  by (relation "measure length") auto

text \<open>
  \<open>decodeURIComponent\<close>: an escape below \<open>0x80\<close> is that character; a larger one
  starts a UTF-8 sequence of two to four escapes, which must be the valid encoding of a
  code point; anything else throws \<open>URIError\<close>.
\<close>

fun continuation_escapes :: "nat \<Rightarrow> ustring \<Rightarrow> nat list option" where
  "continuation_escapes 0 s = Some []"
| "continuation_escapes (Suc k) s =
     (case s of
        p # rest \<Rightarrow>
          if p = 37 then
            (case hex2 rest of
               None \<Rightarrow> None
             | Some b \<Rightarrow>
                 (case continuation_escapes k (drop 2 rest) of
                    None \<Rightarrow> None
                  | Some bs \<Rightarrow> Some (b # bs)))
          else None
      | [] \<Rightarrow> None)"

definition sequence_length :: "nat \<Rightarrow> nat" where
  "sequence_length b =
     (if 192 \<le> b \<and> b < 224 then 2
      else if 224 \<le> b \<and> b < 240 then 3
      else if 240 \<le> b \<and> b < 248 then 4
      else 0)"

function decodeURIComponent :: "ustring \<Rightarrow> exn + ustring" where
  "decodeURIComponent [] = Inr []"
| "decodeURIComponent (c # cs) =
     (if c \<noteq> 37 then
        (case decodeURIComponent cs of Inl e \<Rightarrow> Inl e | Inr r \<Rightarrow> Inr (c # r))
      else
        (case hex2 cs of
           None \<Rightarrow> Inl new_URIError
         | Some b \<Rightarrow>
             if b < 128 then
               (case decodeURIComponent (drop 2 cs) of Inl e \<Rightarrow> Inl e | Inr r \<Rightarrow> Inr (b # r))
             else if sequence_length b = 0 then Inl new_URIError
             else
               (case continuation_escapes (sequence_length b - 1) (drop 2 cs) of
                  None \<Rightarrow> Inl new_URIError
                | Some bs \<Rightarrow>
                    (case utf8_decode (b # bs) of
                       None \<Rightarrow> Inl new_URIError
                     | Some v \<Rightarrow>
                         (case decodeURIComponent (drop (2 + 3 * (sequence_length b - 1)) cs) of
                            Inl e \<Rightarrow> Inl e
                          | Inr r \<Rightarrow> Inr (utf16_encode v @ r))))))"
  by pat_completeness auto
termination
  by (relation "measure length") auto

section \<open>Base64url codec (utils.ts)\<close>

text \<open>
  \<open>'%' + ('00' + c.charCodeAt(0).toString(16)).slice(-2)\<close>: the number in lower-case
  hexadecimal without leading zeros, behind two zeros, cut to its last two characters.
\<close>

function to_hex :: "nat \<Rightarrow> ustring" where
  "to_hex n = (if n < 16 then [hex_lower n] else to_hex (n div 16) @ [hex_lower (n mod 16)])"
  by pat_completeness auto
termination
  by (relation "measure id") auto

declare to_hex.simps [simp del]

definition escape_lower :: "nat \<Rightarrow> ustring" where
  "escape_lower c =
     (let padded = [48, 48] @ to_hex c in 37 # drop (length padded - 2) padded)"

definition encodeBase64Url :: "platform \<Rightarrow> ustring \<Rightarrow> exn + ustring" where
  "encodeBase64Url pf data_in =
     (case (if has_btoa pf then
              (case encodeURIComponent data_in of
                 Inl e \<Rightarrow> Inl e
               | Inr escaped \<Rightarrow> btoa (unescape escaped))
            else Inr (buffer_utf8_to_base64 pf data_in)) of
        Inl e \<Rightarrow> Inl e
      | Inr base64 \<Rightarrow>
          Inr (replace_first [Cls (\<lambda>c. c = 61), Star (\<lambda>c. c = 61), Eos] (\<lambda>_. [])
                 (replace_char 47 95 (replace_char 43 45 base64))))"

definition decodeBase64Url :: "platform \<Rightarrow> ustring \<Rightarrow> exn + ustring" where
  "decodeBase64Url pf data_in =
     (let base64 = replace_char 95 47 (replace_char 45 43 data_in);
          padded = base64 @ replicate ((4 - length base64 mod 4) mod 4) 61
      in if has_atob pf then
           (case atob padded of
              Inl e \<Rightarrow> Inl e
            | Inr bin \<Rightarrow> decodeURIComponent (concat (map escape_lower bin)))
         else Inr (buffer_base64_to_utf8 pf padded))"

text \<open>
  A string without a lone surrogate, every element a 16-bit code unit: the strings that
  are the UTF-16 form of a sequence of Unicode code points.
\<close>

fun well_formed :: "ustring \<Rightarrow> bool" where
  "well_formed [] = True"
| "well_formed [c] = (c < 65536 \<and> \<not> high_surrogate c \<and> \<not> low_surrogate c)"
| "well_formed (c # d # rest) =
     (if high_surrogate c then low_surrogate d \<and> well_formed rest
      else c < 65536 \<and> \<not> low_surrogate c \<and> well_formed (d # rest))"

section \<open>Auxiliary notions for the proofs\<close>

text \<open>One assignment of the walk of \<open>extractBody\<close>, when the decoder returns.\<close>

definition assign_step :: "platform \<Rightarrow> EmailBody \<Rightarrow> string \<times> ustring \<Rightarrow> EmailBody" where
  "assign_step pf acc x =
     (if fst x = ''text/html'' then acc\<lparr>body_html := Some (projr (gmail_decodeBase64Url pf (snd x)))\<rparr>
      else acc\<lparr>body_text := projr (gmail_decodeBase64Url pf (snd x))\<rparr>)"

text \<open>The base64 text of a byte sequence without its padding.\<close>

fun b64_core :: "nat list \<Rightarrow> nat list" where
  "b64_core (a # b # c # rest) =
     b64_char (a div 4) # b64_char ((a mod 4) * 16 + b div 16) #
     b64_char ((b mod 16) * 4 + c div 64) # b64_char (c mod 64) # b64_core rest"
| "b64_core [a, b] =
     [b64_char (a div 4), b64_char ((a mod 4) * 16 + b div 16), b64_char ((b mod 16) * 4)]"
| "b64_core [a] = [b64_char (a div 4), b64_char ((a mod 4) * 16)]"
| "b64_core [] = []"

text \<open>The UTF-8 bytes of a string without lone surrogates.\<close>

fun utf8_bytes :: "ustring \<Rightarrow> nat list" where
  "utf8_bytes [] = []"
| "utf8_bytes [c] = utf8_encode c"
| "utf8_bytes (c # d # rest) =
     (if high_surrogate c then utf8_encode ((c - 55296) * 1024 + (d - 56320) + 65536) @ utf8_bytes rest
      else utf8_encode c @ utf8_bytes (d # rest))"

text \<open>A text over the base64 alphabet.\<close>

definition b64_text :: "nat list \<Rightarrow> bool" where
  "b64_text xs = (\<forall>c \<in> set xs. \<exists>i < 64. c = b64_char i)"

text \<open>Putting code units in front of the result of a decoder that may throw.\<close>

definition then_units :: "ustring \<Rightarrow> exn + ustring \<Rightarrow> exn + ustring" where
  "then_units v res = (case res of Inl e \<Rightarrow> Inl e | Inr x \<Rightarrow> Inr (v @ x))"










section \<open>Concrete inputs\<close>

text \<open>A platform with \<open>atob\<close> and \<open>btoa\<close>; its \<open>Buffer\<close> functions are then never called.\<close>

definition web_platform :: platform where
  "web_platform = \<lparr>has_atob = True, has_btoa = True,
      buffer_base64_to_utf8 = (\<lambda>x. x), buffer_utf8_to_base64 = (\<lambda>x. x)\<rparr>"

definition leaf :: "string \<Rightarrow> string \<Rightarrow> part" where
  "leaf mt d = Part (Some mt) None None
     (Some \<lparr>attachmentId = None, body_size = None, body_data = Some (js d)\<rparr>) None"

text \<open>A multipart message with two plain-text leaves, "A" and "B" in base64.\<close>

definition two_plain_parts :: part where
  "two_plain_parts = Part (Some ''multipart/mixed'') None None None
     (Some [leaf ''text/plain'' ''QQ'', leaf ''text/plain'' ''Qg''])"

definition sent_then_inbox :: wire_message where
  "sent_then_inbox = \<lparr>wm_id = ''m1'', wm_threadId = ''t1'', wm_labelIds = Some [''SENT'', ''INBOX''],
     wm_snippet = None, wm_sizeEstimate = None, wm_payload = None, wm_raw = None\<rparr>"

text \<open>An operation that fails twice with a network error and then succeeds, and one that is always denied.\<close>

definition flaky :: "nat \<Rightarrow> (exn + nat) \<times> nat" where
  "flaky n = (if n < 2 then Inl (new_NetworkError ''connection reset'' None) else Inr 42, Suc n)"

definition denied :: "nat \<Rightarrow> (exn + nat) \<times> nat" where
  "denied n = (Inl (new_AuthenticationError ''denied'' None), Suc n)"

definition fresh_api :: api_state where
  "fresh_api = \<lparr>token_expired = False, has_refreshToken = False\<rparr>"

definition unauthorized_response :: response where
  "unauthorized_response = \<lparr>status = 401, statusText = ''Unauthorized'', resp_headers = [],
     resp_body = Json (Some ''Invalid Credentials'')\<rparr>"

definition plain_message :: "string \<Rightarrow> wire_message" where
  "plain_message i = \<lparr>wm_id = i, wm_threadId = i, wm_labelIds = Some [''INBOX''],
     wm_snippet = None, wm_sizeEstimate = None, wm_payload = None, wm_raw = None\<rparr>"

text \<open>A source of three pages with two messages each.\<close>

definition three_pages :: backend where
  "three_pages = \<lparr>
     list_page = (\<lambda>t.
       if t = None then Inr \<lparr>messages = Some [(''a'', ''a''), (''b'', ''b'')], nextPageToken = Some ''p2''\<rparr>
       else if t = Some ''p2'' then Inr \<lparr>messages = Some [(''c'', ''c''), (''d'', ''d'')], nextPageToken = Some ''p3''\<rparr>
       else if t = Some ''p3'' then Inr \<lparr>messages = Some [(''e'', ''e''), (''f'', ''f'')], nextPageToken = None\<rparr>
       else Inr \<lparr>messages = None, nextPageToken = None\<rparr>),
     get_message = (\<lambda>i. Inr (plain_message i))\<rparr>"

section \<open>Properties of the retry policy\<close>

lemma retry_loop_success:
  assumes "int attempt < attempts config" "fn (world s) = (Inr v, w')"
  shows "retry_loop fn config rand attempt lastError s = (Inr v, s\<lparr>world := w', calls := Suc (calls s)\<rparr>)"
  using assms by (subst retry_loop.simps) (simp add: invoke_def)

lemma retry_loop_fatal:
  assumes "int attempt < attempts config" "fn (world s) = (Inl e, w')"
    "instanceof e Error" "retryable e = Some False"
  shows "retry_loop fn config rand attempt lastError s = (Inl (Some e), s\<lparr>world := w', calls := Suc (calls s)\<rparr>)"
  using assms by (subst retry_loop.simps) (simp add: invoke_def)

lemma retry_loop_again:
  assumes "int attempt < attempts config" "fn (world s) = (Inl e, w')"
    "\<not> (instanceof e Error \<and> retryable e = Some False)"
  shows "retry_loop fn config rand attempt lastError s =
     retry_loop fn config rand (Suc attempt) (Some e)
       (if int attempt < attempts config - 1
        then sleep (getDelay attempt config (rand attempt)) (s\<lparr>world := w', calls := Suc (calls s)\<rparr>)
        else s\<lparr>world := w', calls := Suc (calls s)\<rparr>)"
proof (cases "retryable e")
  case None
  with assms show ?thesis by (subst retry_loop.simps) (simp add: invoke_def)
next
  case (Some b)
  with assms show ?thesis by (subst retry_loop.simps) (auto simp add: invoke_def)
qed

lemma retry_loop_exhausted:
  assumes "\<not> int attempt < attempts config"
  shows "retry_loop fn config rand attempt lastError s = (Inl lastError, s)"
  using assms by (subst retry_loop.simps) simp

lemma withRetry_two_failures:
  assumes "attempts config = 3" "backoff config = NoBackoff"
   "fn (world s) = (Inl e1, w1)" "fn w1 = (Inl e2, w2)" "fn w2 = (Inr v, w3)"
   "\<not> (instanceof e1 Error \<and> retryable e1 = Some False)"
   "\<not> (instanceof e2 Error \<and> retryable e2 = Some False)"
  shows "withRetry fn (Some config) rand s =
     (Inr v, s\<lparr>world := w3, calls := calls s + 3, sleeps := sleeps s @ [0, 0]\<rparr>)"
proof -
  let ?s1 = "sleep 0 (s\<lparr>world := w1, calls := Suc (calls s)\<rparr>)"
  let ?s2 = "sleep 0 (?s1\<lparr>world := w2, calls := Suc (calls ?s1)\<rparr>)"
  have d: "\<And>a. getDelay a config (rand a) = 0"
    using assms(2) by (simp add: getDelay_def)
  have 1: "retry_loop fn config rand 0 None s = retry_loop fn config rand (Suc 0) (Some e1) ?s1"
    using retry_loop_again [of 0 config fn s e1 w1 rand None] assms d by simp
  have 2: "retry_loop fn config rand (Suc 0) (Some e1) ?s1 =
           retry_loop fn config rand (Suc (Suc 0)) (Some e2) ?s2"
    using retry_loop_again [of "Suc 0" config fn ?s1 e2 w2 rand "Some e1"] assms d
    by (simp add: sleep_def)
  have 3: "retry_loop fn config rand (Suc (Suc 0)) (Some e2) ?s2 =
           (Inr v, ?s2\<lparr>world := w3, calls := Suc (calls ?s2)\<rparr>)"
    using retry_loop_success [of "Suc (Suc 0)" config fn ?s2 v w3 rand "Some e2"] assms
    by (simp add: sleep_def)
  show ?thesis
    unfolding withRetry_def using 1 2 3 by (simp add: sleep_def)
qed

lemma withRetry_non_retryable:
  assumes "1 \<le> attempts config"
   "fn (world s) = (Inl e, w1)" "instanceof e Error" "retryable e = Some False"
  shows "withRetry fn (Some config) rand s = (Inl (Some e), s\<lparr>world := w1, calls := calls s + 1\<rparr>)"
  using retry_loop_fatal [of 0 config fn s e w1 rand None] assms
  by (simp add: withRetry_def)

text \<open>
  Claim C4.  An operation that fails twice with errors that are not marked
  non-retryable and then succeeds, wrapped with \<open>attempts = 3\<close> and no backoff, returns
  the success after exactly three invocations.  An operation that fails with an error
  whose \<open>retryable\<close> property is false has that very error re-raised after exactly one
  invocation, whatever number of attempts (at least one) is configured.
\<close>

theorem withRetry_counts:
  "(attempts config = 3 \<and> backoff config = NoBackoff \<and>
    fn (world s) = (Inl e1, w1) \<and> fn w1 = (Inl e2, w2) \<and> fn w2 = (Inr v, w3) \<and>
    \<not> (instanceof e1 Error \<and> retryable e1 = Some False) \<and>
    \<not> (instanceof e2 Error \<and> retryable e2 = Some False)
    \<longrightarrow> fst (withRetry fn (Some config) rand s) = Inr v \<and>
        calls (snd (withRetry fn (Some config) rand s)) = calls s + 3) \<and>
   (1 \<le> attempts config' \<and> gn (world s) = (Inl e, w) \<and> instanceof e Error \<and> retryable e = Some False
    \<longrightarrow> fst (withRetry gn (Some config') rand' s) = Inl (Some e) \<and>
        calls (snd (withRetry gn (Some config') rand' s)) = calls s + 1)"
  using withRetry_two_failures [of config fn s e1 w1 e2 w2 v w3 rand]
        withRetry_non_retryable [of config' gn s e w rand']
  by auto

theorem withRetry_counts_witness:
  "fst (withRetry flaky (Some \<lparr>attempts = 3, backoff = NoBackoff, initialDelay = 1000, maxDelay = 30000\<rparr>)
         (\<lambda>_. 0) \<lparr>world = 0, calls = 0, sleeps = []\<rparr>) = Inr 42 \<and>
   calls (snd (withRetry flaky (Some \<lparr>attempts = 3, backoff = NoBackoff, initialDelay = 1000, maxDelay = 30000\<rparr>)
         (\<lambda>_. 0) \<lparr>world = 0, calls = 0, sleeps = []\<rparr>)) = 3 \<and>
   fst (withRetry denied (Some \<lparr>attempts = 5, backoff = Exponential, initialDelay = 1000, maxDelay = 30000\<rparr>)
         (\<lambda>_. 0) \<lparr>world = 0, calls = 0, sleeps = []\<rparr>) = Inl (Some (new_AuthenticationError ''denied'' None)) \<and>
   calls (snd (withRetry denied (Some \<lparr>attempts = 5, backoff = Exponential, initialDelay = 1000, maxDelay = 30000\<rparr>)
         (\<lambda>_. 0) \<lparr>world = 0, calls = 0, sleeps = []\<rparr>)) = 1"
  using withRetry_counts [of "\<lparr>attempts = 3, backoff = NoBackoff, initialDelay = 1000, maxDelay = 30000\<rparr>"
     flaky "\<lparr>world = 0, calls = 0, sleeps = []\<rparr>" "new_NetworkError ''connection reset'' None" 1
     "new_NetworkError ''connection reset'' None" 2 42 3 "\<lambda>_. 0"
     "\<lparr>attempts = 5, backoff = Exponential, initialDelay = 1000, maxDelay = 30000\<rparr>"
     denied "new_AuthenticationError ''denied'' None" 1 "\<lambda>_. 0"]
  by (simp add: flaky_def denied_def new_NetworkError_def new_AuthenticationError_def
       new_FaktoorError_def instanceof_def)

text \<open>
  Claim C9.  In the fixed backoff mode the delay is \<open>initialDelay\<close> for every attempt
  number and every random draw; it is not capped, so an \<open>initialDelay\<close> above
  \<open>maxDelay\<close> gives a delay above \<open>maxDelay\<close>.
\<close>

theorem getDelay_fixed:
  "backoff config = Fixed \<Longrightarrow>
     getDelay attempt config random = initialDelay config \<and>
     (maxDelay config < initialDelay config \<longrightarrow> maxDelay config < getDelay attempt config random)"
  by (simp add: getDelay_def)

theorem getDelay_fixed_witness:
  "backoff \<lparr>attempts = 3, backoff = Fixed, initialDelay = 5000, maxDelay = 1000\<rparr> = Fixed \<and>
   getDelay 2 \<lparr>attempts = 3, backoff = Fixed, initialDelay = 5000, maxDelay = 1000\<rparr> (1 / 2) = 5000 \<and>
   maxDelay \<lparr>attempts = 3, backoff = Fixed, initialDelay = 5000, maxDelay = 1000\<rparr>
     < initialDelay \<lparr>attempts = 3, backoff = Fixed, initialDelay = 5000, maxDelay = 1000\<rparr> \<and>
   maxDelay \<lparr>attempts = 3, backoff = Fixed, initialDelay = 5000, maxDelay = 1000\<rparr>
     < getDelay 2 \<lparr>attempts = 3, backoff = Fixed, initialDelay = 5000, maxDelay = 1000\<rparr> (1 / 2)"
  using getDelay_fixed [of "\<lparr>attempts = 3, backoff = Fixed, initialDelay = 5000, maxDelay = 1000\<rparr>" 2 "1 / 2"]
  by simp

section \<open>Properties of the Gmail wire translator\<close>

lemma processpart_foldl:
  "(\<forall>x \<in> set (assigned p). \<not> isl (gmail_decodeBase64Url pf (snd x))) \<Longrightarrow>
     processpart pf p acc = Inr (foldl (assign_step pf) acc (assigned p))"
  "(\<forall>x \<in> set (assigned_each ps). \<not> isl (gmail_decodeBase64Url pf (snd x))) \<Longrightarrow>
     processpart_each pf ps acc = Inr (foldl (assign_step pf) acc (assigned_each ps))"
proof (induction pf p acc and pf ps acc rule: processpart_processpart_each.induct)
  case (1 pf mt fname hs b ps acc)
  let ?p = "Part mt fname hs b ps"
  show ?case
  proof (cases "(mt = Some ''text/html'' \<or> mt = Some ''text/plain'') \<and> inline_data ?p \<noteq> None")
    case True
    then have "\<not> isl (gmail_decodeBase64Url pf (the (inline_data ?p)))"
      using "1.prems" by auto
    then obtain v where v: "gmail_decodeBase64Url pf (the (inline_data ?p)) = Inr v"
      by (cases "gmail_decodeBase64Url pf (the (inline_data ?p))") auto
    with True show ?thesis
      by (auto simp: assign_step_def)
  next
    case False
    show ?thesis
    proof (cases ps)
      case None
      with False show ?thesis by auto
    next
      case (Some subparts)
      with False "1.prems"
      have "\<forall>x \<in> set (assigned_each subparts). \<not> isl (gmail_decodeBase64Url pf (snd x))"
        by auto
      with "1.IH" [of subparts] False Some
      have "processpart_each pf subparts acc = Inr (foldl (assign_step pf) acc (assigned_each subparts))"
        by auto
      with False Some show ?thesis by auto
    qed
  qed
next
  case (2 pf acc)
  show ?case by simp
next
  case (3 pf subpart rest acc)
  from "3.prems" have a: "\<forall>x \<in> set (assigned subpart). \<not> isl (gmail_decodeBase64Url pf (snd x))"
    and b: "\<forall>x \<in> set (assigned_each rest). \<not> isl (gmail_decodeBase64Url pf (snd x))" by auto
  from "3.IH"(1) [OF a]
  have h: "processpart pf subpart acc = Inr (foldl (assign_step pf) acc (assigned subpart))" .
  from "3.IH"(2) [OF h b] h show ?case by simp
qed

lemma assigned_types:
  "x \<in> set (assigned p) \<Longrightarrow> fst x = ''text/html'' \<or> fst x = ''text/plain''"
  "x \<in> set (assigned_each ps) \<Longrightarrow> fst x = ''text/html'' \<or> fst x = ''text/plain''"
  by (induction p and ps rule: assigned_assigned_each.induct) (auto split: if_splits option.splits)

lemma foldl_assign_text:
  "\<forall>x \<in> set xs. fst x = ''text/html'' \<or> fst x = ''text/plain'' \<Longrightarrow>
   body_text (foldl (assign_step pf) acc xs) =
     (case filter (\<lambda>x. fst x = ''text/plain'') xs of [] \<Rightarrow> body_text acc
      | ds \<Rightarrow> projr (gmail_decodeBase64Url pf (snd (last ds))))"
  by (induction xs rule: rev_induct) (auto simp: assign_step_def split: list.splits)

lemma foldl_assign_html:
  "body_html (foldl (assign_step pf) acc xs) =
     (case filter (\<lambda>x. fst x = ''text/html'') xs of [] \<Rightarrow> body_html acc
      | ds \<Rightarrow> Some (projr (gmail_decodeBase64Url pf (snd (last ds)))))"
  by (induction xs rule: rev_induct) (auto simp: assign_step_def split: list.splits)

lemma extractBody_last:
  assumes "\<forall>x \<in> set (assigned p). \<not> isl (gmail_decodeBase64Url pf (snd x))"
  shows "extractBody pf (Some p) =
     Inr \<lparr>body_html = (case inline_of ''text/html'' p of [] \<Rightarrow> None
                        | ds \<Rightarrow> Some (projr (gmail_decodeBase64Url pf (last ds)))),
          body_text = (case inline_of ''text/plain'' p of [] \<Rightarrow> []
                        | ds \<Rightarrow> projr (gmail_decodeBase64Url pf (last ds)))\<rparr>"
proof -
  let ?r = "foldl (assign_step pf) \<lparr>body_html = None, body_text = []\<rparr> (assigned p)"
  have e: "extractBody pf (Some p) = Inr ?r"
    using processpart_foldl(1) [OF assms] by (simp add: extractBody_def)
  have t: "body_text ?r = (case inline_of ''text/plain'' p of [] \<Rightarrow> []
                        | ds \<Rightarrow> projr (gmail_decodeBase64Url pf (last ds)))"
    using foldl_assign_text [of "assigned p" pf] assigned_types(1) [of _ p]
    by (auto simp: inline_of_def last_map split: list.splits)
  have h: "body_html ?r = (case inline_of ''text/html'' p of [] \<Rightarrow> None
                        | ds \<Rightarrow> Some (projr (gmail_decodeBase64Url pf (last ds))))"
    using foldl_assign_html [of pf _ "assigned p"]
    by (auto simp: inline_of_def last_map split: list.splits)
  have "?r = \<lparr>body_html = body_html ?r, body_text = body_text ?r\<rparr>" by simp
  with e t h show ?thesis by simp
qed

text \<open>
  Claim C2, as stated, fails: with two plain-text leaves "A" and "B" the text of the body
  is the content of the second leaf, not of the first.
\<close>

theorem extractBody_first_wins_counterexample:
  "map_sum id body_text (extractBody web_platform (Some two_plain_parts)) = Inr [66] \<and>
   gmail_decodeBase64Url web_platform (hd (inline_of ''text/plain'' two_plain_parts)) = Inr [65]"
  by code_simp

text \<open>
  Claim C2, amended.  When the decoder returns on every part the walk assigns from, the
  text of the body is the decoded content of the last \<open>text/plain\<close> part with inline
  content that the walk reaches in document order, and the html is that of the last such
  \<open>text/html\<close> part; parts of one type are never merged.  With no such part, and with
  no payload, the body is the default \<open>{ html: null, text: "" }\<close>.
\<close>

theorem extractBody_last_wins:
  assumes "\<forall>x \<in> set (assigned p). \<not> isl (gmail_decodeBase64Url pf (snd x))"
  shows "extractBody pf (Some p) =
     Inr \<lparr>body_html = (case inline_of ''text/html'' p of [] \<Rightarrow> None
                        | ds \<Rightarrow> Some (projr (gmail_decodeBase64Url pf (last ds)))),
          body_text = (case inline_of ''text/plain'' p of [] \<Rightarrow> []
                        | ds \<Rightarrow> projr (gmail_decodeBase64Url pf (last ds)))\<rparr> \<and>
     (assigned p = [] \<longrightarrow> extractBody pf (Some p) = Inr \<lparr>body_html = None, body_text = []\<rparr>) \<and>
     extractBody pf None = Inr \<lparr>body_html = None, body_text = []\<rparr>"
  using extractBody_last [OF assms] by (auto simp: inline_of_def extractBody_def)

theorem extractBody_last_wins_witness:
  "list_all (\<lambda>x. \<not> isl (gmail_decodeBase64Url web_platform (snd x))) (assigned two_plain_parts) \<and>
   inline_of ''text/plain'' two_plain_parts = [js ''QQ'', js ''Qg''] \<and>
   extractBody web_platform (Some two_plain_parts) = Inr \<lparr>body_html = None, body_text = [66]\<rparr>"
proof -
  have h: "\<forall>x \<in> set (assigned two_plain_parts). \<not> isl (gmail_decodeBase64Url web_platform (snd x))"
    by code_simp
  have t: "(case inline_of ''text/plain'' two_plain_parts of [] \<Rightarrow> []
            | ds \<Rightarrow> projr (gmail_decodeBase64Url web_platform (last ds))) = [66]"
    by code_simp
  have m: "(case inline_of ''text/html'' two_plain_parts of [] \<Rightarrow> None
            | ds \<Rightarrow> Some (projr (gmail_decodeBase64Url web_platform (last ds)))) = None"
    by code_simp
  have i: "inline_of ''text/plain'' two_plain_parts = [js ''QQ'', js ''Qg'']"
    by code_simp
  from extractBody_last_wins [OF h] h t m i show ?thesis by (simp add: list_all_iff)
qed

lemma find_split:
  "find P xs = Some x \<Longrightarrow> \<exists>pre post. xs = pre @ x # post \<and> P x \<and> (\<forall>y \<in> set pre. \<not> P y)"
proof (induction xs)
  case Nil
  then show ?case by simp
next
  case (Cons a xs)
  show ?case
  proof (cases "P a")
    case True
    with Cons.prems have "a = x" by simp
    with True have "a # xs = [] @ x # xs \<and> P x \<and> (\<forall>y \<in> set []. \<not> P y)" by simp
    then show ?thesis by blast
  next
    case False
    with Cons obtain pre post where "xs = pre @ x # post" "P x" "\<forall>y \<in> set pre. \<not> P y" by auto
    with False have "a # xs = (a # pre) @ x # post \<and> P x \<and> (\<forall>y \<in> set (a # pre). \<not> P y)" by simp
    then show ?thesis by blast
  qed
qed

text \<open>
  Claim C3, as stated, fails: for the label list SENT, INBOX the folder is SENT, while
  the priority rule gives INBOX.
\<close>

theorem folder_priority_counterexample:
  "map_sum id email_folder (parseGmailMessage web_platform sent_then_inbox) = Inr ''SENT'' \<and>
   spec_folder_by_priority [''SENT'', ''INBOX''] = ''INBOX''"
  by code_simp

text \<open>
  Claim C3, amended.  The folder of the parsed message is the first label, in the order
  of the message's own label list, that is one of INBOX, SENT, DRAFT, TRASH, SPAM; it is
  INBOX when the list holds none of the five.
\<close>

theorem parseGmailMessage_folder:
  assumes "map_sum id email_folder (parseGmailMessage pf msg) = Inr f"
    and "labelIds = (case wm_labelIds msg of None \<Rightarrow> [] | Some ls \<Rightarrow> ls)"
  shows "(f = ''INBOX'' \<and> (\<forall>l \<in> set labelIds. l \<notin> set folder_ids)) \<or>
         (\<exists>pre post. labelIds = pre @ f # post \<and> f \<in> set folder_ids \<and>
            (\<forall>l \<in> set pre. l \<notin> set folder_ids))"
proof -
  from assms
  have f: "f = (case find (\<lambda>l. l \<in> set folder_ids) labelIds of None \<Rightarrow> ''INBOX'' | Some l \<Rightarrow> l)"
    by (auto simp: parseGmailMessage_def Let_def split: sum.splits)
  show ?thesis
  proof (cases "find (\<lambda>l. l \<in> set folder_ids) labelIds")
    case None
    with f show ?thesis by (auto simp: find_None_iff)
  next
    case (Some l)
    with f have "f = l" by simp
    with find_split [OF Some] show ?thesis by blast
  qed
qed

theorem parseGmailMessage_folder_witness:
  "map_sum id email_folder (parseGmailMessage web_platform sent_then_inbox) = Inr ''SENT'' \<and>
   (\<exists>pre post. [''SENT'', ''INBOX''] = pre @ ''SENT'' # post \<and> ''SENT'' \<in> set folder_ids \<and>
      (\<forall>l \<in> set pre. l \<notin> set folder_ids))"
proof -
  have a: "map_sum id email_folder (parseGmailMessage web_platform sent_then_inbox) = Inr ''SENT''"
    by code_simp
  have b: "[''SENT'', ''INBOX''] = (case wm_labelIds sent_then_inbox of None \<Rightarrow> [] | Some ls \<Rightarrow> ls)"
    by code_simp
  have c: "''SENT'' \<noteq> ''INBOX''" by simp
  from parseGmailMessage_folder [OF a b] a c show ?thesis by simp
qed

text \<open>
  Claim C10.  \<open>labelToFolderType\<close> maps INBOX, SENT, DRAFT, TRASH and SPAM to inbox,
  sent, drafts, trash and spam, and every other label id to custom; so a folder made by
  \<open>labelToFolder\<close> never has the type archive.
\<close>

theorem labelToFolderType_cases:
  "labelToFolderType ''INBOX'' = inbox \<and> labelToFolderType ''SENT'' = sent \<and>
   labelToFolderType ''DRAFT'' = drafts \<and> labelToFolderType ''TRASH'' = trash \<and>
   labelToFolderType ''SPAM'' = spam \<and>
   (labelId \<notin> {''INBOX'', ''SENT'', ''DRAFT'', ''TRASH'', ''SPAM''} \<longrightarrow> labelToFolderType labelId = custom) \<and>
   folder_type (labelToFolder label) \<noteq> archive"
  by (simp add: labelToFolderType_def labelToFolder_def)

theorem labelToFolderType_cases_witness:
  "''Label_7'' \<notin> {''INBOX'', ''SENT'', ''DRAFT'', ''TRASH'', ''SPAM''} \<and>
   labelToFolderType ''Label_7'' = custom"
  using labelToFolderType_cases [of "''Label_7''"] by simp

section \<open>Properties of the API client and of streaming\<close>

lemma handleError_not_api_error: "\<not> instanceof (handleError r) FaktoorApiError"
  by (simp add: handleError_def instanceof_def Let_def new_TypeError_def new_AuthenticationError_def
        new_RateLimitError_def new_ProviderError_def new_FaktoorError_def
      split: json_body.splits option.splits)

lemma request_wraps_classified:
  assumes "\<not> token_expired st" "\<not> ok r"
  shows "request st (Inr r) =
           Inl (new_NetworkError ''Failed to connect to Gmail API'' (Some (handleError r)))"
  using assms handleError_not_api_error [of r] by (simp add: request_def)

text \<open>
  Claim C1 at the status 401: \<open>handleError\<close> throws the authentication error, but it is
  not an instance of \<open>FaktoorApiError\<close>, so \<open>request\<close> wraps it; what reaches the caller
  has the code NETWORK_ERROR and is retryable, with the authentication error as its cause.
  (By \<open>request_wraps_classified\<close> the same happens for every status that is not ok.)
\<close>

theorem request_401_wrapped:
  "handleError unauthorized_response = new_AuthenticationError ''Invalid Credentials'' None \<and>
   map_sum (\<lambda>e. (code e, retryable e, cause e)) id (request fresh_api (Inr unauthorized_response)) =
     Inl (Some ''NETWORK_ERROR'', Some True,
          Some (new_AuthenticationError ''Invalid Credentials'' None))"
  by code_simp

text \<open>
  The delay of a rate limit error is a double: a \<open>Retry-After\<close> value beyond \<open>2^53\<close>
  is rounded, a value without a digit gives \<open>NaN\<close>.
\<close>

lemma retry_after_rounds:
  "times1000 (parseInt10 ''9007199254740993'') = Num 9007199254740992000 \<and>
   times1000 (parseInt10 ''120'') = Num 120000 \<and>
   times1000 (parseInt10 ''soon'') = NaN"
  by (simp add: times1000_def parseInt10_def to_double_def round_double_def double_exp.simps
        digits_value_def is_digit_def is_space_def)

lemma list_calls_append [simp]: "list_calls (xs @ ys) = list_calls xs + list_calls ys"
  by (simp add: list_calls_def)

lemma list_calls_simps [simp]:
  "list_calls [] = 0"
  "list_calls (GetCall i # cs) = list_calls cs"
  "list_calls (ListCall t # cs) = Suc (list_calls cs)"
  by (simp_all add: list_calls_def)

lemma fetch_one_calls:
  "list_calls (issued (snd (fetch_one pf be msg rest npt cs))) = list_calls cs"
  by (simp add: fetch_one_def Let_def split: sum.splits)

lemma fetch_one_gen:
  "fetch_one pf be msg rest npt cs = (Yield e, s') \<Longrightarrow> gen s' = Suspended rest npt"
  by (auto simp add: fetch_one_def Let_def split: sum.splits)

lemma consume_within_page:
  "gen s = Suspended ms tk \<Longrightarrow> n \<le> length ms \<Longrightarrow>
     list_calls (issued (snd (consume pf be n s))) = list_calls (issued s)"
proof (induction n arbitrary: s ms)
  case 0
  then show ?case by (simp add: gen_return_def)
next
  case (Suc n)
  then obtain m rest where ms: "ms = m # rest" by (cases ms) auto
  with Suc.prems have g: "gen_next pf be s = fetch_one pf be m rest tk (issued s)"
    by (simp add: gen_next_def)
  obtain r s' where r: "fetch_one pf be m rest tk (issued s) = (r, s')"
    by (cases "fetch_one pf be m rest tk (issued s)")
  have c: "list_calls (issued s') = list_calls (issued s)"
    using fetch_one_calls [of pf be m rest tk "issued s"] r by simp
  show ?case
  proof (cases r)
    case (Yield e)
    with r have "gen s' = Suspended rest tk" using fetch_one_gen by blast
    moreover from Suc.prems ms have "n \<le> length rest" by simp
    ultimately have "list_calls (issued (snd (consume pf be n s'))) = list_calls (issued s')"
      using Suc.IH by blast
    with g r Yield c show ?thesis by (auto split: prod.splits)
  next
    case Done
    with g r c show ?thesis by simp
  next
    case (Throw x)
    with g r c show ?thesis by simp
  qed
qed

lemma consume_two:
  assumes "list_page be None = Inr \<lparr>messages = Some [m1, m2], nextPageToken = t\<rparr>"
    "get_message be (fst m1) = Inr f1" "get_message be (fst m2) = Inr f2"
    "parseGmailMessage pf f1 = Inr e1" "parseGmailMessage pf f2 = Inr e2"
  shows "consume pf be 2 \<lparr>gen = NotStarted, issued = []\<rparr> =
     ([e1, e2], \<lparr>gen = Completed, issued = [ListCall None, GetCall (fst m1), GetCall (fst m2)]\<rparr>)"
proof -
  have 1: "gen_next pf be \<lparr>gen = NotStarted, issued = []\<rparr> =
      (Yield e1, \<lparr>gen = Suspended [m2] t, issued = [ListCall None, GetCall (fst m1)]\<rparr>)"
    using assms by (simp add: gen_next_def fetch_page_def fetch_one_def)
  have 2: "gen_next pf be \<lparr>gen = Suspended [m2] t, issued = [ListCall None, GetCall (fst m1)]\<rparr> =
      (Yield e2, \<lparr>gen = Suspended [] t, issued = [ListCall None, GetCall (fst m1), GetCall (fst m2)]\<rparr>)"
    using assms by (simp add: gen_next_def fetch_one_def)
  have "consume pf be (Suc (Suc 0)) \<lparr>gen = NotStarted, issued = []\<rparr> =
     ([e1, e2], \<lparr>gen = Completed, issued = [ListCall None, GetCall (fst m1), GetCall (fst m2)]\<rparr>)"
    using 1 2 by (simp add: gen_return_def)
  then show ?thesis by (simp add: numeral_2_eq_2)
qed

text \<open>
  Claim C7.  When the first page of the source holds two messages (whatever pages follow
  it), a consumer that takes two items and stops has received both and has caused exactly
  one page-list request.  In general, stopping issues no request at all, and a consumer
  that takes no more items than are left of the current page and then stops causes no
  further page-list request.
\<close>

theorem stream_early_termination:
  "(list_page be None = Inr \<lparr>messages = Some [m1, m2], nextPageToken = t\<rparr> \<and>
    get_message be (fst m1) = Inr f1 \<and> get_message be (fst m2) = Inr f2 \<and>
    parseGmailMessage pf f1 = Inr e1 \<and> parseGmailMessage pf f2 = Inr e2
    \<longrightarrow> fst (consume pf be 2 \<lparr>gen = NotStarted, issued = []\<rparr>) = [e1, e2] \<and>
        list_calls (issued (snd (consume pf be 2 \<lparr>gen = NotStarted, issued = []\<rparr>))) = 1) \<and>
   issued (gen_return s) = issued s \<and>
   (gen s = Suspended ms tk \<and> n \<le> length ms
    \<longrightarrow> list_calls (issued (snd (consume pf be n s))) = list_calls (issued s))"
  using consume_two [of be m1 m2 t f1 f2 pf e1 e2] consume_within_page [of s ms tk n pf be]
  by (auto simp: gen_return_def)

theorem stream_early_termination_witness:
  "list_page three_pages None =
     Inr \<lparr>messages = Some [(''a'', ''a''), (''b'', ''b'')], nextPageToken = Some ''p2''\<rparr> \<and>
   length (fst (consume web_platform three_pages 2 \<lparr>gen = NotStarted, issued = []\<rparr>)) = 2 \<and>
   list_calls (issued (snd (consume web_platform three_pages 2 \<lparr>gen = NotStarted, issued = []\<rparr>))) = 1 \<and>
   list_calls (issued (snd (consume web_platform three_pages 1
      \<lparr>gen = Suspended [(''b'', ''b'')] (Some ''p2''), issued = [ListCall None, GetCall ''a'']\<rparr>))) = 1"
proof -
  have l: "list_page three_pages None =
     Inr \<lparr>messages = Some [(''a'', ''a''), (''b'', ''b'')], nextPageToken = Some ''p2''\<rparr>"
    by (simp add: three_pages_def)
  have g: "get_message three_pages (fst (''a'', ''a'')) = Inr (plain_message ''a'')"
    "get_message three_pages (fst (''b'', ''b'')) = Inr (plain_message ''b'')"
    by (simp_all add: three_pages_def)
  have p: "parseGmailMessage web_platform (plain_message ''a'') =
             Inr (projr (parseGmailMessage web_platform (plain_message ''a'')))"
    "parseGmailMessage web_platform (plain_message ''b'') =
             Inr (projr (parseGmailMessage web_platform (plain_message ''b'')))"
    by (simp_all add: parseGmailMessage_def plain_message_def extractBody_def Let_def)
  have c: "list_calls [ListCall None, GetCall ''a''] = 1" by simp
  show ?thesis
    using stream_early_termination [of three_pages "(''a'', ''a'')" "(''b'', ''b'')" "Some ''p2''"
        "plain_message ''a''" "plain_message ''b''" web_platform
        "projr (parseGmailMessage web_platform (plain_message ''a''))"
        "projr (parseGmailMessage web_platform (plain_message ''b''))"
        "\<lparr>gen = Suspended [(''b'', ''b'')] (Some ''p2''), issued = [ListCall None, GetCall ''a'']\<rparr>"
        "[(''b'', ''b'')]" "Some ''p2''" 1]
      l g p c
    by simp
qed

section \<open>Properties of the address codec\<close>

lemma star_greedy:
  "\<forall>c \<in> set xs. p c \<Longrightarrow> ys = [] \<or> \<not> p (hd ys) \<Longrightarrow> rx_match r ys caps = Some res \<Longrightarrow>
     rx_match (Star p # r) (xs @ ys) caps = Some res"
proof (induction xs)
  case Nil
  then show ?case by (cases ys) auto
next
  case (Cons x xs)
  then show ?case by simp
qed

lemma trim_id:
  assumes "s \<noteq> []" "\<not> js_space (hd s)" "\<not> js_space (last s)"
  shows "trim s = s"
proof -
  from assms have 1: "dropWhile js_space s = s" by (cases s) auto
  from assms have "rev s \<noteq> []" "\<not> js_space (hd (rev s))" by (auto simp: hd_rev)
  then have 2: "dropWhile js_space (rev s) = rev s" by (cases "rev s") auto
  from 1 2 show ?thesis by (simp add: trim_def)
qed

lemma match_formatted:
  assumes n: "\<forall>c \<in> set n. c \<noteq> 34 \<and> c \<noteq> 60"
    and l: "l \<noteq> []" and d: "d \<noteq> []"
    and ld: "\<forall>c \<in> set (l @ d). c \<noteq> 62 \<and> c \<noteq> 64 \<and> \<not> js_space c"
  shows "rx_match address_rx (34 # n @ [34, 32, 60] @ l @ [64] @ d @ [62]) [] =
           Some ([], [(2, l @ [64] @ d), (1, n)])"
proof -
  obtain l0 ls where l0: "l = l0 # ls" using l by (cases l) auto
  obtain d0 ds where d0: "d = d0 # ds" using d by (cases d) auto
  let ?s = "34 # n @ [34, 32, 60] @ l @ [64] @ d @ [62]"
  let ?s1 = "n @ [34, 32, 60] @ l @ [64] @ d @ [62]"
  let ?s2 = "l @ [64] @ d @ [62]"
  let ?tail = "[Opt (lit ''>''), Eos]"
  let ?caps1 = "[(1, n)]"
  let ?res = "Some ([], [(2, l @ [64] @ d), (1, n)])"
  let ?g2 = "[Cls email_chr, Star email_chr, Cls (\<lambda>c. c = 64), Cls email_chr, Star email_chr]"
  have sp: "\<not> js_space 62" "\<not> js_space 60" "\<not> js_space 34" "js_space 32"
    by (simp_all add: js_space_def)
  have e1: "rx_match (Close 2 ?s2 # ?tail) [62] ?caps1 = ?res"
    by (simp add: lit_def)
  have e2: "rx_match (Star email_chr # Close 2 ?s2 # ?tail) (ds @ [62]) ?caps1 = ?res"
    using star_greedy [of ds email_chr "[62]" "Close 2 ?s2 # ?tail" ?caps1, OF _ _ e1] ld d0
    by (simp add: email_chr_def)
  have e3: "rx_match (Cls (\<lambda>c. c = 64) # Cls email_chr # Star email_chr # Close 2 ?s2 # ?tail)
              ([64] @ d @ [62]) ?caps1 = ?res"
    using e2 ld d0 by (simp add: email_chr_def)
  have e4: "rx_match (Star email_chr # Cls (\<lambda>c. c = 64) # Cls email_chr # Star email_chr #
                        Close 2 ?s2 # ?tail)
              (ls @ [64] @ d @ [62]) ?caps1 = ?res"
    using star_greedy [of ls email_chr "[64] @ d @ [62]" _ ?caps1, OF _ _ e3] ld l0
    by (simp add: email_chr_def)
  have e5: "rx_match (Grp 2 ?g2 # ?tail) ?s2 ?caps1 = ?res"
    using e4 ld l0 by (simp add: email_chr_def)
  let ?rest = "[Opt (lit ''<''), Grp 2 ?g2, Opt (lit ''>''), Eos]"
  have e6: "rx_match ?rest (60 # ?s2) ?caps1 = ?res"
    using e5 by (simp add: lit_def)
  have e7: "rx_match (Star js_space # Progress ?s # ?rest) (32 # 60 # ?s2) ?caps1 = ?res"
    using e6 sp by simp
  have e8: "rx_match (Opt (lit ''\"'') # Star js_space # Progress ?s # ?rest)
              (34 # 32 # 60 # ?s2) ?caps1 = ?res"
    using e7 by (simp add: lit_def)
  have e9: "rx_match (Close 1 ?s1 # Opt (lit ''\"'') # Star js_space # Progress ?s # ?rest)
              ([34, 32, 60] @ ?s2) [] = ?res"
    using e8 by simp
  have e10: "rx_match (Star name_chr # Close 1 ?s1 # Opt (lit ''\"'') # Star js_space #
                         Progress ?s # ?rest)
              (n @ [34, 32, 60] @ ?s2) [] = ?res"
    using star_greedy [of n name_chr "[34, 32, 60] @ ?s2" _ "[]", OF _ _ e9] n
    by (simp add: name_chr_def)
  show ?thesis
    using e10 by (simp add: address_rx_def lit_def)
qed

text \<open>
  Claim C5, as stated, fails.  A bare address, which \<open>formatAddress\<close> writes for an
  address without a name, is split by the greedy name group: \<open>user@example.com\<close> comes
  back with the name \<open>use\<close> and the email \<open>r@example.com\<close>.  A name with white space
  at an end comes back trimmed.
\<close>

theorem parseAddress_roundtrip_counterexample:
  "parseAddress (formatAddress \<lparr>email = js ''user@example.com'', name = None\<rparr>) =
     \<lparr>email = js ''r@example.com'', name = Some (js ''use'')\<rparr> \<and>
   parseAddress (formatAddress \<lparr>email = js ''a@b.c'', name = Some (js '' Bob'')\<rparr>) =
     \<lparr>email = js ''a@b.c'', name = Some (js ''Bob'')\<rparr>"
  by (simp add: parseAddress_def formatAddress_def address_rx_def lit_def js_def trim_def
        js_space_def name_chr_def email_chr_def)

text \<open>
  Claim C5, amended.  For an address with a name that is not empty, holds neither a
  double quote nor \<open><\<close>, and neither starts nor ends with white space, and with an
  email of the form local@domain whose two sides are not empty and hold no \<open>></\<close>, no
  \<open>@\<close> and no white space, \<open>parseAddress (formatAddress a)\<close> is \<open>a\<close>.
\<close>

theorem parseAddress_formatAddress_named:
  assumes "n \<noteq> []" "\<forall>c \<in> set n. c \<noteq> 34 \<and> c \<noteq> 60"
    and "\<not> js_space (hd n)" "\<not> js_space (last n)"
    and "l \<noteq> []" "d \<noteq> []" "\<forall>c \<in> set (l @ d). c \<noteq> 62 \<and> c \<noteq> 64 \<and> \<not> js_space c"
  shows "parseAddress (formatAddress \<lparr>email = l @ [64] @ d, name = Some n\<rparr>) =
           \<lparr>email = l @ [64] @ d, name = Some n\<rparr>"
proof -
  let ?s = "34 # n @ [34, 32, 60] @ l @ [64] @ d @ [62]"
  have f: "formatAddress \<lparr>email = l @ [64] @ d, name = Some n\<rparr> = ?s"
    using assms(1) by (simp add: formatAddress_def js_def)
  have t: "trim ?s = ?s"
    by (rule trim_id) (simp_all add: js_space_def)
  have te: "trim (l @ [64] @ d) = l @ [64] @ d"
    using assms(5,6,7) by (intro trim_id) (auto simp: hd_append js_space_def)
  have tn: "trim n = n" using assms(1,3,4) by (rule trim_id)
  from match_formatted [OF assms(2) assms(5) assms(6) assms(7)] f t te tn assms(1)
  show ?thesis by (simp add: parseAddress_def)
qed

theorem parseAddress_formatAddress_named_witness:
  "parseAddress (formatAddress \<lparr>email = js ''john'' @ [64] @ js ''example.com'',
                                name = Some (js ''John Doe'')\<rparr>) =
     \<lparr>email = js ''john'' @ [64] @ js ''example.com'', name = Some (js ''John Doe'')\<rparr>"
proof -
  have 1: "js ''John Doe'' \<noteq> []" by (simp add: js_def)
  have 2: "\<forall>c \<in> set (js ''John Doe''). c \<noteq> 34 \<and> c \<noteq> 60" by (simp add: js_def)
  have 3: "\<not> js_space (hd (js ''John Doe''))" "\<not> js_space (last (js ''John Doe''))"
    by (simp_all add: js_def js_space_def)
  have 4: "js ''john'' \<noteq> []" "js ''example.com'' \<noteq> []" by (simp_all add: js_def)
  have 5: "\<forall>c \<in> set (js ''john'' @ js ''example.com''). c \<noteq> 62 \<and> c \<noteq> 64 \<and> \<not> js_space c"
    by (simp add: js_def js_space_def)
  from parseAddress_formatAddress_named [OF 1 2 3 4 5] show ?thesis .
qed

section \<open>Properties of the HTML reduction\<close>





lemma ci_eq_lt [simp]: "ci_eq 60 x = (x = 60)"
  by (auto simp: ci_eq_def upper_code_def)



























text \<open>
  A numeric character reference beyond \<open>2^53\<close> is rounded to a double before its low
  16 bits are taken.
\<close>

lemma round_double_small: "n < 9007199254740992 \<Longrightarrow> round_double n = n"
  by (simp add: round_double_def double_exp.simps)

lemma fromCharCode_rounds:
  "fromCharCode_digits (js ''9007199254740993'') = [0] \<and>
   fromCharCode_digits (js ''65'') = [65] \<and> fromCharCode_digits (js ''65601'') = [65]"
  by (simp add: fromCharCode_digits_def round_double_def double_exp.simps js_def)









text \<open>
  The conditions on the text around a block cannot be dropped.  An open tag that the
  text before the block leaves unfinished takes the block's end tag for its own; a style
  block that starts inside a script block and ends behind it takes the script's end tag
  away, and the start of the script is then in the output.
\<close>

lemma dangling_open_tag:
  "htmlToText (js ''<style<style>x</style>post'') = js ''post'' \<and>
   htmlToText (js ''<stylepost'') = js ''<stylepost''"
  by (simp add: htmlToText_def strip_style_def strip_script_def reduce_markup_def style_rx_def
        script_rx_def lit_def lit_ci_def js_def ci_eq_def upper_code_def replace_all.simps trim_def
        js_space_def digit_code_def)

lemma style_across_script:
  "htmlToText (js ''<script>a<style>b</script>c</style>d'') = js ''ad''"
  by (simp add: htmlToText_def strip_style_def strip_script_def reduce_markup_def style_rx_def
        script_rx_def lit_def lit_ci_def js_def ci_eq_def upper_code_def replace_all.simps trim_def
        js_space_def digit_code_def)




section \<open>Properties of the base64url codec\<close>

lemma b64_index_char: "i < 64 \<Longrightarrow> b64_index (b64_char i) = Some i"
  by (auto simp: b64_index_def b64_char_def)

lemma b64_char_props:
  "i < 64 \<Longrightarrow> b64_char i \<noteq> 61 \<and> b64_char i \<noteq> 45 \<and> b64_char i \<noteq> 95 \<and> \<not> ascii_whitespace (b64_char i)"
  by (auto simp: b64_char_def ascii_whitespace_def)

lemma b64_text_simps [simp]:
  "b64_text []" "b64_text (c # cs) = ((\<exists>i < 64. c = b64_char i) \<and> b64_text cs)"
  by (auto simp: b64_text_def)

lemma b64_char_text: "i < 64 \<Longrightarrow> \<exists>j < 64. b64_char i = b64_char j"
  by blast

lemma b64_core_text: "\<forall>b \<in> set bs. b < 256 \<Longrightarrow> b64_text (b64_core bs)"
proof (induction bs rule: b64_core.induct)
  case (1 a b c rest)
  have "a div 4 < 64" "(a mod 4) * 16 + b div 16 < 64" "(b mod 16) * 4 + c div 64 < 64" "c mod 64 < 64"
    using 1(2) by auto
  then have "\<exists>j < 64. b64_char (a div 4) = b64_char j"
    "\<exists>j < 64. b64_char ((a mod 4) * 16 + b div 16) = b64_char j"
    "\<exists>j < 64. b64_char ((b mod 16) * 4 + c div 64) = b64_char j"
    "\<exists>j < 64. b64_char (c mod 64) = b64_char j"
    by (blast intro: b64_char_text)+
  moreover have "b64_text (b64_core rest)" using 1 by simp
  ultimately show ?case by (simp only: b64_core.simps b64_text_simps)
next
  case (2 a b)
  have "a div 4 < 64" "(a mod 4) * 16 + b div 16 < 64" "(b mod 16) * 4 < 64"
    using 2 by auto
  then have "\<exists>j < 64. b64_char (a div 4) = b64_char j"
    "\<exists>j < 64. b64_char ((a mod 4) * 16 + b div 16) = b64_char j"
    "\<exists>j < 64. b64_char ((b mod 16) * 4) = b64_char j"
    by (blast intro: b64_char_text)+
  then show ?case by (simp only: b64_core.simps b64_text_simps)
next
  case (3 a)
  have "a div 4 < 64" "(a mod 4) * 16 < 64" using 3 by auto
  then have "\<exists>j < 64. b64_char (a div 4) = b64_char j"
    "\<exists>j < 64. b64_char ((a mod 4) * 16) = b64_char j"
    by (blast intro: b64_char_text)+
  then show ?case by (simp only: b64_core.simps b64_text_simps)
next
  case 4
  show ?case by simp
qed

lemma b64_core_length: "length (b64_core bs) mod 4 \<noteq> 1"
  by (induction bs rule: b64_core.induct) auto

lemma b64_enc_core:
  "b64_enc bs = b64_core bs @ replicate ((4 - length (b64_core bs) mod 4) mod 4) 61"
  by (induction bs rule: b64_core.induct) (auto simp: numeral_2_eq_2)

lemma the_index: "i < 64 \<Longrightarrow> the (b64_index (b64_char i)) = i"
  by (simp add: b64_index_char)

lemma b64_dec_core:
  "\<forall>b \<in> set bs. b < 256 \<Longrightarrow> b64_dec (map (\<lambda>c. the (b64_index c)) (b64_core bs)) = bs"
proof (induction bs rule: b64_core.induct)
  case (1 a b c rest)
  have r: "a div 4 < 64" "(a mod 4) * 16 + b div 16 < 64" "(b mod 16) * 4 + c div 64 < 64" "c mod 64 < 64"
    using 1(2) by auto
  have ar: "a div 4 * 4 + (a mod 4 * 16 + b div 16) div 16 = a"
       "(a mod 4 * 16 + b div 16) mod 16 * 16 + (b mod 16 * 4 + c div 64) div 4 = b"
       "(b mod 16 * 4 + c div 64) mod 4 * 64 + c mod 64 = c"
    using 1(2) by auto
  have ih: "b64_dec (map (\<lambda>c. the (b64_index c)) (b64_core rest)) = rest" using 1 by simp
  show ?case
    by (simp only: b64_core.simps list.map b64_dec.simps the_index [OF r(1)] the_index [OF r(2)]
          the_index [OF r(3)] the_index [OF r(4)] ar ih)
next
  case (2 a b)
  have r: "a div 4 < 64" "(a mod 4) * 16 + b div 16 < 64" "(b mod 16) * 4 < 64"
    using 2 by auto
  have ar: "a div 4 * 4 + (a mod 4 * 16 + b div 16) div 16 = a"
       "(a mod 4 * 16 + b div 16) mod 16 * 16 + (b mod 16 * 4) div 4 = b"
    using 2 by auto
  show ?case
    by (simp only: b64_core.simps list.map b64_dec.simps the_index [OF r(1)] the_index [OF r(2)]
          the_index [OF r(3)] ar)
next
  case (3 a)
  have r: "a div 4 < 64" "(a mod 4) * 16 < 64" using 3 by auto
  have ar: "a div 4 * 4 + (a mod 4 * 16) div 16 = a" by auto
  show ?case
    by (simp only: b64_core.simps list.map b64_dec.simps the_index [OF r(1)] the_index [OF r(2)] ar)
next
  case 4
  show ?case by simp
qed

lemma hexval_lower: "x < 16 \<Longrightarrow> hexval (hex_lower x) = Some x"
  by (auto simp: hexval_def hex_lower_def)

lemma hexval_upper: "x < 16 \<Longrightarrow> hexval (hex_upper x) = Some x"
  by (auto simp: hexval_def hex_upper_def)

lemma hex_upper_not_u: "x < 16 \<Longrightarrow> hex_upper x \<noteq> 117"
  by (auto simp: hex_upper_def)

lemma hex2_lower: "x < 16 \<Longrightarrow> y < 16 \<Longrightarrow> hex2 (hex_lower x # hex_lower y # r) = Some (16 * x + y)"
  by (simp add: hexval_lower)

lemma hex2_upper: "x < 16 \<Longrightarrow> y < 16 \<Longrightarrow> hex2 (hex_upper x # hex_upper y # r) = Some (16 * x + y)"
  by (simp add: hexval_upper)

lemma escape_lower_byte:
  assumes "b < 256"
  shows "escape_lower b = [37, hex_lower (b div 16), hex_lower (b mod 16)]"
proof (cases "b < 16")
  case True
  then have "to_hex b = [hex_lower b]" by (subst to_hex.simps) simp
  with True show ?thesis by (simp add: escape_lower_def hex_lower_def)
next
  case False
  with assms have d: "b div 16 < 16" by auto
  then have "to_hex (b div 16) = [hex_lower (b div 16)]" by (subst to_hex.simps) simp
  with False have "to_hex b = [hex_lower (b div 16), hex_lower (b mod 16)]"
    by (subst to_hex.simps) simp
  then show ?thesis by (simp add: escape_lower_def)
qed

lemma unescape_escape_upper:
  assumes "b < 256"
  shows "unescape (escape_upper b @ r) = b # unescape r"
proof -
  from assms have d: "b div 16 < 16" "b mod 16 < 16" by auto
  have h: "hex2 (hex_upper (b div 16) # hex_upper (b mod 16) # r) = Some b"
    using hex2_upper [OF d] by simp
  show ?thesis
    using h hex_upper_not_u [OF d(1)] by (simp add: escape_upper_def)
qed

lemma unescape_escapes:
  "\<forall>b \<in> set bs. b < 256 \<Longrightarrow> unescape (concat (map escape_upper bs) @ r) = bs @ unescape r"
  by (induction bs) (simp_all add: unescape_escape_upper)

lemma utf8_encode_bytes: "cp < 1114112 \<Longrightarrow> \<forall>b \<in> set (utf8_encode cp). b < 256"
  by (auto simp: utf8_encode_def)

lemma unreserved_props: "unreserved c \<Longrightarrow> c \<noteq> 37 \<and> c < 128 \<and> \<not> high_surrogate c \<and> \<not> low_surrogate c"
  by (auto simp: unreserved_def high_surrogate_def low_surrogate_def)

lemma unescape_plain: "c \<noteq> 37 \<Longrightarrow> unescape (c # r) = c # unescape r"
  by simp

lemma pair_range:
  "high_surrogate c \<Longrightarrow> low_surrogate d \<Longrightarrow>
     65536 \<le> (c - 55296) * 1024 + (d - 56320) + 65536 \<and> (c - 55296) * 1024 + (d - 56320) + 65536 < 1114112"
  by (auto simp: high_surrogate_def low_surrogate_def)

lemma encode_unescape:
  "well_formed s \<Longrightarrow> \<exists>esc. encodeURIComponent s = Inr esc \<and> unescape esc = utf8_bytes s"
proof (induction s rule: well_formed.induct)
  case 1
  show ?case by simp
next
  case (2 c)
  then have c: "c < 65536" "\<not> high_surrogate c" "\<not> low_surrogate c" by auto
  show ?case
  proof (cases "unreserved c")
    case True
    then show ?thesis using unreserved_props [OF True] by (simp add: utf8_encode_def)
  next
    case False
    have "\<forall>b \<in> set (utf8_encode c). b < 256" using c(1) by (intro utf8_encode_bytes) simp
    from unescape_escapes [OF this, of "[]"] False c show ?thesis by simp
  qed
next
  case (3 c d rest)
  show ?case
  proof (cases "high_surrogate c")
    case True
    with 3 have d: "low_surrogate d" and w: "well_formed rest" by auto
    from 3(1) [OF True] w obtain esc where e: "encodeURIComponent rest = Inr esc" "unescape esc = utf8_bytes rest"
      by auto
    have nu: "\<not> unreserved c" using True unreserved_props by blast
    have nl: "\<not> low_surrogate c" using True by (auto simp: high_surrogate_def low_surrogate_def)
    let ?cp = "(c - 55296) * 1024 + (d - 56320) + 65536"
    have "\<forall>b \<in> set (utf8_encode ?cp). b < 256"
      using pair_range [OF True d] by (intro utf8_encode_bytes) simp
    from unescape_escapes [OF this, of esc] e True d nu nl show ?thesis by simp
  next
    case False
    with 3 have c: "c < 65536" "\<not> low_surrogate c" and w: "well_formed (d # rest)" by auto
    from 3(2) [OF False] w obtain esc where e: "encodeURIComponent (d # rest) = Inr esc"
      "unescape esc = utf8_bytes (d # rest)" by auto
    show ?thesis
    proof (cases "unreserved c")
      case True
      then show ?thesis using unreserved_props [OF True] e False by (simp add: utf8_encode_def)
    next
      case u: False
      have "\<forall>b \<in> set (utf8_encode c). b < 256" using c(1) by (intro utf8_encode_bytes) simp
      from unescape_escapes [OF this, of esc] e False c u show ?thesis by simp
    qed
  qed
qed

lemma utf8_bytes_range: "well_formed s \<Longrightarrow> \<forall>b \<in> set (utf8_bytes s). b < 256"
proof (induction s rule: well_formed.induct)
  case 1
  show ?case by simp
next
  case (2 c)
  then show ?case using utf8_encode_bytes [of c] by simp
next
  case (3 c d rest)
  show ?case
  proof (cases "high_surrogate c")
    case True
    with 3 have d: "low_surrogate d" and w: "well_formed rest" by auto
    have "\<forall>b \<in> set (utf8_encode ((c - 55296) * 1024 + (d - 56320) + 65536)). b < 256"
      using pair_range [OF True d] by (intro utf8_encode_bytes) simp
    with 3(1) [OF True w] True show ?thesis
      by (simp add: ball_Un)
  next
    case False
    with 3 have c: "c < 65536" and w: "well_formed (d # rest)" by auto
    have "\<forall>b \<in> set (utf8_encode c). b < 256"
      using c by (intro utf8_encode_bytes) simp
    with 3(2) [OF False w] False show ?thesis
      by (simp add: ball_Un)
  qed
qed

lemma lin64: "(u::nat) * 64 + v = x \<Longrightarrow> u * 4096 + v * 64 = 64 * x"
  by simp

lemma lin4096: "(u::nat) * 64 + v = x \<Longrightarrow> u * 262144 + v * 4096 = 4096 * x"
  by simp

lemma split3: "cp div 4096 * 4096 + cp div 64 mod 64 * 64 + cp mod 64 = (cp::nat)"
proof -
  have a: "cp div 4096 = cp div 64 div 64" by (simp add: div_mult2_eq)
  have b: "cp div 64 div 64 * 4096 + cp div 64 mod 64 * 64 = 64 * (cp div 64)"
    by (rule lin64) (rule div_mult_mod_eq)
  have c: "64 * (cp div 64) + cp mod 64 = cp" by (rule mult_div_mod_eq)
  show ?thesis unfolding a b by (rule c)
qed

lemma split4:
  "cp div 262144 * 262144 + cp div 4096 mod 64 * 4096 + cp div 64 mod 64 * 64 + cp mod 64 = (cp::nat)"
proof -
  have a: "cp div 262144 = cp div 4096 div 64" by (simp add: div_mult2_eq)
  have b: "cp div 4096 div 64 * 262144 + cp div 4096 mod 64 * 4096 = 4096 * (cp div 4096)"
    by (rule lin4096) (rule div_mult_mod_eq)
  have c: "4096 * (cp div 4096) = cp div 4096 * 4096" by (rule mult.commute)
  show ?thesis unfolding a b c by (rule split3)
qed

lemma hex2_byte: "b < 256 \<Longrightarrow> hex2 (hex_lower (b div 16) # hex_lower (b mod 16) # r) = Some b"
proof -
  assume "b < 256"
  then have d: "b div 16 < 16" "b mod 16 < 16" by auto
  from hex2_lower [OF d] show ?thesis by simp
qed

lemma escapes_length: "\<forall>b \<in> set bs. b < 256 \<Longrightarrow> length (concat (map escape_lower bs)) = 3 * length bs"
  by (induction bs) (simp_all add: escape_lower_byte)

lemma continuation_all:
  "\<forall>b \<in> set bs. b < 256 \<Longrightarrow>
     continuation_escapes (length bs) (concat (map escape_lower bs) @ r) = Some bs"
proof (induction bs)
  case Nil
  show ?case by simp
next
  case (Cons b bs)
  then have b: "b < 256" and ih: "continuation_escapes (length bs) (concat (map escape_lower bs) @ r) = Some bs"
    by simp_all
  have h: "hex2 (hex_lower (b div 16) # hex_lower (b mod 16) # concat (map escape_lower bs) @ r) = Some b"
    by (rule hex2_byte [OF b])
  have "continuation_escapes (Suc (length bs))
          (37 # hex_lower (b div 16) # hex_lower (b mod 16) # concat (map escape_lower bs) @ r) = Some (b # bs)"
    by (simp only: continuation_escapes.simps list.case refl if_True h option.case drop_Suc_Cons drop_0
          numeral_2_eq_2 ih)
  then show ?case by (simp add: escape_lower_byte [OF b])
qed

lemma decode_low:
  assumes "b < 128"
  shows "decodeURIComponent (escape_lower b @ r) = then_units [b] (decodeURIComponent r)"
proof -
  have b: "b < 256" using assms by simp
  have h: "hex2 (hex_lower (b div 16) # hex_lower (b mod 16) # r) = Some b"
    by (rule hex2_byte [OF b])
  have "decodeURIComponent (37 # hex_lower (b div 16) # hex_lower (b mod 16) # r) =
          then_units [b] (decodeURIComponent r)"
    by (subst decodeURIComponent.simps)
       (simp only: h option.case assms refl if_True if_False not_False_eq_True simp_thms drop_Suc_Cons
          drop_0 numeral_2_eq_2 then_units_def append_Cons append_Nil)
  then show ?thesis by (simp add: escape_lower_byte [OF b])
qed

lemma decode_sequence:
  assumes "a < 256" "\<forall>b \<in> set bs. b < 256" "\<not> a < 128"
    and "sequence_length a = Suc (length bs)" "utf8_decode (a # bs) = Some v"
  shows "decodeURIComponent (concat (map escape_lower (a # bs)) @ r) =
           then_units (utf16_encode v) (decodeURIComponent r)"
proof -
  let ?tail = "concat (map escape_lower bs) @ r"
  let ?cs = "hex_lower (a div 16) # hex_lower (a mod 16) # ?tail"
  have h: "hex2 ?cs = Some a" by (rule hex2_byte [OF assms(1)])
  have d2: "drop 2 ?cs = ?tail" by (simp add: numeral_2_eq_2)
  have c: "continuation_escapes (sequence_length a - 1) (drop 2 ?cs) = Some bs"
    using continuation_all [OF assms(2), of r] assms(4) d2 by simp
  have n0: "sequence_length a \<noteq> 0" using assms(4) by simp
  have dr: "drop (2 + 3 * (sequence_length a - 1)) ?cs = r"
    using escapes_length [OF assms(2)] assms(4) by (simp add: numeral_2_eq_2)
  have "decodeURIComponent (37 # ?cs) = then_units (utf16_encode v) (decodeURIComponent r)"
    by (subst decodeURIComponent.simps)
       (simp only: h option.case assms(3) assms(5) n0 c dr refl if_True if_False not_False_eq_True
          simp_thms then_units_def)
  then show ?thesis by (simp add: escape_lower_byte [OF assms(1)])
qed

lemma mod64_bound: "(x::nat) mod 64 < 128"
  using mod_less_divisor [of 64 x] by linarith

lemma decode_scalar:
  assumes "cp < 1114112" "\<not> (55296 \<le> cp \<and> cp < 57344)"
  shows "decodeURIComponent (concat (map escape_lower (utf8_encode cp)) @ r) =
           then_units (utf16_encode cp) (decodeURIComponent r)"
proof -
  consider "cp < 128" | "128 \<le> cp \<and> cp < 2048" | "2048 \<le> cp \<and> cp < 65536" | "65536 \<le> cp"
    by linarith
  then show ?thesis
  proof cases
    case 1
    then have "utf8_encode cp = [cp]" "utf16_encode cp = [cp]"
      by (simp_all add: utf8_encode_def utf16_encode_def)
    with decode_low [OF 1, of r] show ?thesis by simp
  next
    case 2
    let ?a = "192 + cp div 64" and ?b = "128 + cp mod 64"
    have u8: "utf8_encode cp = [?a, ?b]" using 2 by (simp add: utf8_encode_def)
    have a1: "?a < 256" using 2 by auto
    have a2: "\<forall>b \<in> set [?b]. b < 256" using mod64_bound [of cp] by simp
    have a3: "\<not> ?a < 128" by simp
    have a4: "sequence_length ?a = Suc (length [?b])" using 2 by (auto simp: sequence_length_def)
    have a5: "utf8_decode [?a, ?b] = Some cp"
      using 2 by (auto simp: utf8_decode_def continuation_def)
    from decode_sequence [OF a1 a2 a3 a4 a5, of r] u8 show ?thesis by simp
  next
    case 3
    let ?a = "224 + cp div 4096" and ?b = "128 + (cp div 64) mod 64" and ?c = "128 + cp mod 64"
    have u8: "utf8_encode cp = [?a, ?b, ?c]" using 3 by (simp add: utf8_encode_def)
    have a1: "?a < 256" using 3 by auto
    have a2: "\<forall>b \<in> set [?b, ?c]. b < 256"
      using mod64_bound [of cp] mod64_bound [of "cp div 64"] by simp
    have a3: "\<not> ?a < 128" by simp
    have a4: "sequence_length ?a = Suc (length [?b, ?c])" using 3 by (auto simp: sequence_length_def)
    have v: "(?a - 224) * 4096 + (?b - 128) * 64 + (?c - 128) = cp"
      using split3 [of cp] by simp
    have a5: "utf8_decode [?a, ?b, ?c] = Some cp"
      unfolding utf8_decode_def list.case Let_def v
      using 3 assms(2) by (auto simp: continuation_def)
    from decode_sequence [OF a1 a2 a3 a4 a5, of r] u8 show ?thesis by simp
  next
    case 4
    let ?a = "240 + cp div 262144" and ?b = "128 + (cp div 4096) mod 64"
      and ?c = "128 + (cp div 64) mod 64" and ?d = "128 + cp mod 64"
    have u8: "utf8_encode cp = [?a, ?b, ?c, ?d]" using 4 by (simp add: utf8_encode_def)
    have a1: "?a < 256" using assms(1) by auto
    have a2: "\<forall>b \<in> set [?b, ?c, ?d]. b < 256"
      using mod64_bound [of cp] mod64_bound [of "cp div 64"] mod64_bound [of "cp div 4096"] by simp
    have a3: "\<not> ?a < 128" by simp
    have a4: "sequence_length ?a = Suc (length [?b, ?c, ?d])"
      using assms(1) by (auto simp: sequence_length_def)
    have v: "(?a - 240) * 262144 + (?b - 128) * 4096 + (?c - 128) * 64 + (?d - 128) = cp"
      using split4 [of cp] by simp
    have a5: "utf8_decode [?a, ?b, ?c, ?d] = Some cp"
      unfolding utf8_decode_def list.case Let_def v
      using 4 assms(1) by (auto simp: continuation_def)
    from decode_sequence [OF a1 a2 a3 a4 a5, of r] u8 show ?thesis by simp
  qed
qed

lemma utf16_pair:
  assumes "high_surrogate c" "low_surrogate d"
  shows "utf16_encode ((c - 55296) * 1024 + (d - 56320) + 65536) = [c, d]"
proof -
  from assms have c: "55296 \<le> c" and d: "56320 \<le> d" "d - 56320 < 1024"
    by (auto simp: high_surrogate_def low_surrogate_def)
  have "((c - 55296) * 1024 + (d - 56320)) div 1024 = c - 55296"
       "((c - 55296) * 1024 + (d - 56320)) mod 1024 = d - 56320"
    using d(2) by simp_all
  then show ?thesis using c d by (simp add: utf16_encode_def)
qed

lemma decode_utf8_bytes:
  "well_formed s \<Longrightarrow> decodeURIComponent (concat (map escape_lower (utf8_bytes s))) = Inr s"
proof (induction s rule: well_formed.induct)
  case 1
  show ?case by simp
next
  case (2 c)
  then have c: "c < 1114112" "\<not> (55296 \<le> c \<and> c < 57344)" "utf16_encode c = [c]"
    by (auto simp: high_surrogate_def low_surrogate_def utf16_encode_def)
  from decode_scalar [OF c(1,2), of "[]"] c(3) show ?case by (simp add: then_units_def)
next
  case (3 c d rest)
  show ?case
  proof (cases "high_surrogate c")
    case True
    with 3 have d: "low_surrogate d" and w: "well_formed rest" by auto
    let ?cp = "(c - 55296) * 1024 + (d - 56320) + 65536"
    have r: "?cp < 1114112" "\<not> (55296 \<le> ?cp \<and> ?cp < 57344)"
      using pair_range [OF True d] by auto
    from decode_scalar [OF r, of "concat (map escape_lower (utf8_bytes rest))"]
      3(1) [OF True w] utf16_pair [OF True d] True
    show ?thesis by (simp add: then_units_def)
  next
    case False
    with 3 have c: "c < 65536" "\<not> low_surrogate c" and w: "well_formed (d # rest)" by auto
    have r: "c < 1114112" "\<not> (55296 \<le> c \<and> c < 57344)" "utf16_encode c = [c]"
      using c False by (auto simp: high_surrogate_def low_surrogate_def utf16_encode_def)
    from decode_scalar [OF r(1,2), of "concat (map escape_lower (utf8_bytes (d # rest)))"]
      3(2) [OF False w] r(3) False
    show ?thesis by (simp add: then_units_def)
  qed
qed

lemma b64_text_no_pad: "b64_text xs \<Longrightarrow> \<forall>c \<in> set xs. c \<noteq> 61 \<and> c \<noteq> 45 \<and> c \<noteq> 95 \<and> \<not> ascii_whitespace c \<and> b64_index c \<noteq> None"
  using b64_char_props b64_index_char by (fastforce simp: b64_text_def)

lemma strip_pad_run:
  "rx_match [Cls (\<lambda>c. c = 61), Star (\<lambda>c. c = 61), Eos] (61 # replicate k 61) [] = Some ([], [])"
proof -
  have e: "rx_match [Eos] [] [] = Some ([], [])" by simp
  have "rx_match [Star (\<lambda>c. c = 61), Eos] (replicate k 61 @ []) [] = Some ([], [])"
    by (rule star_greedy [OF _ _ e]) simp_all
  then show ?thesis by simp
qed

lemma replace_first_padding:
  "\<forall>c \<in> set xs. c \<noteq> 61 \<Longrightarrow>
     replace_first [Cls (\<lambda>c. c = 61), Star (\<lambda>c. c = 61), Eos] (\<lambda>_. []) (xs @ replicate k 61) = xs"
proof (induction xs)
  case Nil
  show ?case
  proof (cases k)
    case 0
    then show ?thesis by simp
  next
    case (Suc j)
    then show ?thesis using strip_pad_run [of j] by simp
  qed
next
  case (Cons x xs)
  then show ?case by simp
qed

lemma replace_back:
  "\<forall>c \<in> set xs. c \<noteq> 45 \<and> c \<noteq> 95 \<Longrightarrow>
     replace_char 95 47 (replace_char 45 43 (replace_char 47 95 (replace_char 43 45 xs))) = xs"
  by (induction xs) (auto simp: replace_char_def)

lemma replaced_chars:
  "\<forall>c \<in> set xs. c \<noteq> 61 \<Longrightarrow>
     \<forall>c \<in> set (replace_char 47 95 (replace_char 43 45 xs)). c \<noteq> 43 \<and> c \<noteq> 47 \<and> c \<noteq> 61"
  by (auto simp: replace_char_def)

lemma replace_char_length [simp]: "length (replace_char a b xs) = length xs"
  by (simp add: replace_char_def)

lemma replace_char_append [simp]: "replace_char a b (xs @ ys) = replace_char a b xs @ replace_char a b ys"
  by (simp add: replace_char_def)

lemma replace_char_pad [simp]: "a \<noteq> 61 \<Longrightarrow> replace_char a b (replicate k 61) = replicate k 61"
  by (simp add: replace_char_def)

lemma strip_padding_core:
  assumes "\<forall>c \<in> set core. c \<noteq> 61" "length core mod 4 \<noteq> 1"
  shows "strip_padding (core @ replicate ((4 - length core mod 4) mod 4) 61) = core"
proof -
  have "length core mod 4 < 4" by simp
  with assms(2) consider "length core mod 4 = 0" | "length core mod 4 = 2" | "length core mod 4 = 3"
    by linarith
  then show ?thesis
  proof cases
    case 1
    then show ?thesis using assms(1) by (cases core rule: rev_cases) (auto simp: strip_padding_def)
  next
    case 2
    then have k: "(4 - length core mod 4) mod 4 = 2" by simp
    have l: "length (core @ [61, 61]) mod 4 = 0" using 2 by (simp add: mod_Suc)
    show ?thesis
      unfolding k using l by (simp add: strip_padding_def numeral_2_eq_2 butlast_append)
  next
    case 3
    then have k: "(4 - length core mod 4) mod 4 = 1" by simp
    have l: "length (core @ [61]) mod 4 = 0" using 3 by (simp add: mod_Suc)
    have ne: "core \<noteq> []" using 3 by auto
    then have "last core \<noteq> 61" using assms(1) by simp
    then show ?thesis
      unfolding k using l ne by (simp add: strip_padding_def)
  qed
qed

lemma atob_b64_enc:
  assumes "\<forall>b \<in> set bs. b < 256"
  shows "atob (b64_enc bs) = Inr bs"
proof -
  let ?core = "b64_core bs"
  let ?k = "(4 - length ?core mod 4) mod 4"
  have t: "\<forall>c \<in> set ?core. c \<noteq> 61 \<and> c \<noteq> 45 \<and> c \<noteq> 95 \<and> \<not> ascii_whitespace c \<and> b64_index c \<noteq> None"
    using b64_text_no_pad [OF b64_core_text [OF assms]] .
  have ws: "\<not> ascii_whitespace 61" by (simp add: ascii_whitespace_def)
  have f: "filter (\<lambda>c. \<not> ascii_whitespace c) (?core @ replicate ?k 61) = ?core @ replicate ?k 61"
    using t ws by (simp add: filter_id_conv)
  have s: "strip_padding (?core @ replicate ?k 61) = ?core"
    using strip_padding_core [of ?core] t b64_core_length [of bs] by blast
  have a: "list_all (\<lambda>c. b64_index c \<noteq> None) ?core" using t by (simp add: list_all_iff)
  show ?thesis
    unfolding atob_def b64_enc_core [of bs] f s Let_def
    using b64_core_length [of bs] a b64_dec_core [OF assms] by simp
qed

lemma encode_bytes:
  assumes "\<forall>b \<in> set bs. b < 256"
  shows "replace_first [Cls (\<lambda>c. c = 61), Star (\<lambda>c. c = 61), Eos] (\<lambda>_. [])
           (replace_char 47 95 (replace_char 43 45 (b64_enc bs))) =
         replace_char 47 95 (replace_char 43 45 (b64_core bs))"
proof -
  have t: "\<forall>c \<in> set (b64_core bs). c \<noteq> 61"
    using b64_text_no_pad [OF b64_core_text [OF assms]] by blast
  have "\<forall>c \<in> set (replace_char 47 95 (replace_char 43 45 (b64_core bs))). c \<noteq> 61"
    using replaced_chars [OF t] by blast
  from replace_first_padding [OF this] show ?thesis
    by (simp add: b64_enc_core [of bs])
qed

lemma encodeBase64Url_bytes:
  assumes "has_btoa pf" "encodeURIComponent s = Inr esc" "\<forall>b \<in> set (unescape esc). b < 256"
  shows "encodeBase64Url pf s = Inr (replace_char 47 95 (replace_char 43 45 (b64_core (unescape esc))))"
proof -
  have "list_all (\<lambda>c. c \<le> 255) (unescape esc)"
    using assms(3) by (auto simp: list_all_iff)
  then have "btoa (unescape esc) = Inr (b64_enc (unescape esc))" by (simp add: btoa_def)
  with assms(1,2) encode_bytes [OF assms(3)] show ?thesis
    by (simp add: encodeBase64Url_def)
qed

lemma decodeBase64Url_bytes:
  assumes "has_atob pf" "\<forall>b \<in> set bs. b < 256"
  shows "decodeBase64Url pf (replace_char 47 95 (replace_char 43 45 (b64_core bs))) =
           decodeURIComponent (concat (map escape_lower bs))"
proof -
  have t: "\<forall>c \<in> set (b64_core bs). c \<noteq> 45 \<and> c \<noteq> 95"
    using b64_text_no_pad [OF b64_core_text [OF assms(2)]] by blast
  have "atob (b64_core bs @ replicate ((4 - length (b64_core bs) mod 4) mod 4) 61) = Inr bs"
    using atob_b64_enc [OF assms(2)] by (simp add: b64_enc_core [of bs])
  with assms(1) replace_back [OF t] show ?thesis
    by (simp add: decodeBase64Url_def Let_def)
qed

text \<open>
  Claim C6.  On a platform with \<open>btoa\<close> and \<open>atob\<close>: for every string without a lone
  surrogate (which includes every printable Unicode string), \<open>encodeBase64Url\<close> returns and
  \<open>decodeBase64Url\<close> of its output returns the string; and for every string, whatever
  \<open>encodeBase64Url\<close> returns holds none of \<open>+\<close>, \<open>/\<close> and \<open>=\<close>.
\<close>

theorem base64url_roundtrip:
  assumes "has_btoa pf" "has_atob pf"
  shows "(well_formed s \<longrightarrow> (\<exists>e. encodeBase64Url pf s = Inr e \<and> decodeBase64Url pf e = Inr s)) \<and>
         (\<forall>e. encodeBase64Url pf s = Inr e \<longrightarrow> 43 \<notin> set e \<and> 47 \<notin> set e \<and> 61 \<notin> set e)"
proof
  show "well_formed s \<longrightarrow> (\<exists>e. encodeBase64Url pf s = Inr e \<and> decodeBase64Url pf e = Inr s)"
  proof
    assume w: "well_formed s"
    from encode_unescape [OF w] obtain esc where
      e: "encodeURIComponent s = Inr esc" "unescape esc = utf8_bytes s" by blast
    have r: "\<forall>b \<in> set (utf8_bytes s). b < 256" by (rule utf8_bytes_range [OF w])
    have 1: "encodeBase64Url pf s = Inr (replace_char 47 95 (replace_char 43 45 (b64_core (utf8_bytes s))))"
      using encodeBase64Url_bytes [OF assms(1) e(1)] r e(2) by simp
    have 2: "decodeBase64Url pf (replace_char 47 95 (replace_char 43 45 (b64_core (utf8_bytes s)))) = Inr s"
      using decodeBase64Url_bytes [OF assms(2) r] decode_utf8_bytes [OF w] by simp
    from 1 2 show "\<exists>e. encodeBase64Url pf s = Inr e \<and> decodeBase64Url pf e = Inr s" by blast
  qed
next
  show "\<forall>e. encodeBase64Url pf s = Inr e \<longrightarrow> 43 \<notin> set e \<and> 47 \<notin> set e \<and> 61 \<notin> set e"
  proof (intro allI impI)
    fix e
    assume a: "encodeBase64Url pf s = Inr e"
    from a assms(1) obtain esc where esc: "encodeURIComponent s = Inr esc"
      by (cases "encodeURIComponent s") (auto simp: encodeBase64Url_def)
    from a assms(1) esc have "btoa (unescape esc) \<noteq> Inl InvalidCharacterError"
      by (auto simp: encodeBase64Url_def)
    then have "list_all (\<lambda>c. c \<le> 255) (unescape esc)"
      by (auto simp: btoa_def split: if_splits)
    then have r: "\<forall>b \<in> set (unescape esc). b < 256" by (auto simp: list_all_iff)
    from encodeBase64Url_bytes [OF assms(1) esc r] a
    have e: "e = replace_char 47 95 (replace_char 43 45 (b64_core (unescape esc)))" by simp
    have "\<forall>c \<in> set (b64_core (unescape esc)). c \<noteq> 61"
      using b64_text_no_pad [OF b64_core_text [OF r]] by blast
    from replaced_chars [OF this] e show "43 \<notin> set e \<and> 47 \<notin> set e \<and> 61 \<notin> set e" by blast
  qed
qed

theorem base64url_roundtrip_witness:
  "well_formed [72, 233, 8364, 55357, 56832] \<and>
   encodeBase64Url web_platform [72, 233, 8364, 55357, 56832] = Inr (js ''SMOp4oKs8J-YgA'') \<and>
   decodeBase64Url web_platform (js ''SMOp4oKs8J-YgA'') = Inr [72, 233, 8364, 55357, 56832] \<and>
   43 \<notin> set (js ''SMOp4oKs8J-YgA'') \<and> 47 \<notin> set (js ''SMOp4oKs8J-YgA'') \<and>
   61 \<notin> set (js ''SMOp4oKs8J-YgA'')"
proof -
  have hb: "has_btoa web_platform" and ha: "has_atob web_platform"
    by (simp_all add: web_platform_def)
  have w: "well_formed [72, 233, 8364, 55357, 56832]"
    by (simp add: high_surrogate_def low_surrogate_def)
  have e: "encodeBase64Url web_platform [72, 233, 8364, 55357, 56832] = Inr (js ''SMOp4oKs8J-YgA'')"
    by (simp add: encodeBase64Url_def web_platform_def unreserved_def high_surrogate_def
          low_surrogate_def utf8_encode_def escape_upper_def hex_upper_def hexval_def btoa_def
          b64_char_def replace_char_def js_def)
  from base64url_roundtrip [OF hb ha, of "[72, 233, 8364, 55357, 56832]"] w e
  show ?thesis by auto
qed

end
